theory Spec2Isabelle
  imports Complex_Main "HOL-Library.Multiset"
begin

section \<open>Numeric primitives\<close>

text \<open>
  The analysis code of \<^verbatim>\<open>server/audio_analysis.py\<close> computes on double-precision
  floats through numpy. The embedding reads every finite float as the real number it
  denotes and every arithmetic operation as the exact one; a vector that holds NaN or an
  infinity is represented by \<open>None\<close> where the source can produce one. The numpy
  reductions used by the source are written out below.
\<close>

text \<open>\<^verbatim>\<open>np.mean(xs)\<close>: the arithmetic mean.\<close>

definition np_mean :: "real list \<Rightarrow> real" where
  "np_mean xs = sum_list xs / real (length xs)"

text \<open>\<^verbatim>\<open>np.median(xs)\<close>: the middle element of the sorted values, or the mean of the
  two middle elements when the length is even. The source calls it on non-empty lists only.\<close>

definition np_median :: "real list \<Rightarrow> real" where
  "np_median xs =
     (let s = sort xs; n = length s
      in if odd n then s ! (n div 2) else (s ! (n div 2 - 1) + s ! (n div 2)) / 2)"

text \<open>\<^verbatim>\<open>np.std(xs)\<close>: the population standard deviation (\<^verbatim>\<open>ddof=0\<close>).\<close>

definition np_var :: "real list \<Rightarrow> real" where
  "np_var xs = np_mean (map (\<lambda>x. (x - np_mean xs)\<^sup>2) xs)"

definition np_std :: "real list \<Rightarrow> real" where
  "np_std xs = sqrt (np_var xs)"

text \<open>\<^verbatim>\<open>np.average(vs, weights=ws)\<close>; numpy raises \<^verbatim>\<open>ZeroDivisionError\<close> when the weights
  sum to zero, which the caller below models as a branch of its own.\<close>

definition np_average :: "real list \<Rightarrow> real list \<Rightarrow> real" where
  "np_average vs ws = sum_list (map2 (*) vs ws) / sum_list ws"

text \<open>\<^verbatim>\<open>round(x, nd)\<close>: rounding to \<open>nd\<close> decimals, ties to the even neighbour.\<close>

definition py_round :: "real \<Rightarrow> nat \<Rightarrow> real" where
  "py_round x nd =
     (let p = 10 ^ nd; y = x * p; f = \<lfloor>y\<rfloor>; r = y - of_int f;
          q = (if r < 1 / 2 then f else if 1 / 2 < r then f + 1
               else if even f then f else f + 1)
      in of_int q / p)"

section \<open>Tempo aggregation (\<^verbatim>\<open>advanced_bpm_detection\<close>, lines 217--252)\<close>

text \<open>
  The source keeps two parallel lists, \<^verbatim>\<open>tempo_estimates\<close> and
  \<^verbatim>\<open>confidence_scores\<close>, always extended together and masked together; a candidate is
  the pair of the entries at one index.
\<close>

type_synonym tempo_candidate = "real \<times> real"

text \<open>Lines 225--231: the outlier mask, applied only to more than two candidates.\<close>

definition valid_mask :: "real list \<Rightarrow> real \<Rightarrow> bool" where
  "valid_mask tempo_estimates v =
     (let median_tempo = np_median tempo_estimates; std_tempo = np_std tempo_estimates
      in \<bar>v - median_tempo\<bar> \<le> 2 * std_tempo)"

definition remove_outliers :: "tempo_candidate list \<Rightarrow> tempo_candidate list" where
  "remove_outliers cs =
     (if 2 < length cs then filter (\<lambda>c. valid_mask (map fst cs) (fst c)) cs else cs)"

text \<open>Lines 240--250: tempo doubling/halving correction.\<close>

definition octave_correction :: "real \<Rightarrow> real" where
  "octave_correction final_bpm =
     (if 160 < final_bpm then
        (let half_tempo = final_bpm / 2
         in if 80 \<le> half_tempo \<and> half_tempo \<le> 140 then half_tempo else final_bpm)
      else if final_bpm < 80 then
        (let double_tempo = final_bpm * 2
         in if 120 \<le> double_tempo \<and> double_tempo \<le> 160 then double_tempo else final_bpm)
      else final_bpm)"

text \<open>Lines 236--252 on a non-empty list of surviving candidates. A zero weight sum makes
  \<^verbatim>\<open>np.average\<close> raise; the function's outer handler turns that into \<^verbatim>\<open>(None, 0.0)\<close>.\<close>

definition weighted_result :: "tempo_candidate list \<Rightarrow> real option \<times> real" where
  "weighted_result kept =
     (if sum_list (map snd kept) = 0 then (None, 0)
      else
        (let final_bpm = np_average (map fst kept) (map snd kept);
             final_confidence = np_mean (map snd kept)
         in (Some (py_round (octave_correction final_bpm) 1), py_round final_confidence 2)))"

definition aggregate_tempo :: "tempo_candidate list \<Rightarrow> real option \<times> real" where
  "aggregate_tempo cs =
     (if cs = [] then (None, 0)
      else
        (let kept = remove_outliers cs
         in if kept = [] then (None, 0) else weighted_result kept))"

section \<open>The external collaborators\<close>

text \<open>
  The source calls librosa and essentia for every spectral primitive. They are outside
  the repository, so the embedding takes them as a record of functions. A call that the
  source guards with \<^verbatim>\<open>try/except\<close> returns \<open>None\<close> when it raises; a call whose
  exception message reaches the result returns \<open>Inl\<close> of that message
  (\<^verbatim>\<open>str(e)\<close>).
\<close>

type_synonym waveform = "real list"

record provider =
  \<comment> \<open>\<^verbatim>\<open>librosa.beat.beat_track(y, sr, hop_length)\<close>: the tempo\<close>
  beat_track :: "waveform \<Rightarrow> nat \<Rightarrow> nat \<Rightarrow> real option"
  \<comment> \<open>\<^verbatim>\<open>librosa.onset.onset_detect(y, sr, units='time')\<close>\<close>
  onset_detect :: "waveform \<Rightarrow> nat \<Rightarrow> real list option"
  \<comment> \<open>\<^verbatim>\<open>es.MonoLoader(filename=...)()\<close>\<close>
  mono_loader :: "string \<Rightarrow> waveform option"
  \<comment> \<open>\<^verbatim>\<open>es.BpmHistogramDescriptors()(es.BpmHistogram()(audio))[0]\<close>\<close>
  bpm_histogram_descriptors :: "waveform \<Rightarrow> real option"
  \<comment> \<open>\<^verbatim>\<open>peak_pick(autocorrelate(onset_strength(y, sr)), 3, 3, 3, 5, 0.1, 10)\<close>\<close>
  autocorr_peaks :: "waveform \<Rightarrow> nat \<Rightarrow> nat list option"
  \<comment> \<open>\<^verbatim>\<open>librosa.beat.tempo(onset_envelope, sr, hop_length=512, prior)\<close>\<close>
  beat_tempo :: "waveform \<Rightarrow> nat \<Rightarrow> real list option"
  \<comment> \<open>the three chromagrams: twelve rows of frame values each\<close>
  chroma_stft :: "waveform \<Rightarrow> nat \<Rightarrow> real list list option"
  chroma_cqt :: "waveform \<Rightarrow> nat \<Rightarrow> real list list option"
  chroma_cens :: "waveform \<Rightarrow> nat \<Rightarrow> real list list option"
  \<comment> \<open>\<^verbatim>\<open>es.KeyExtractor()(y)\<close>: key, scale, strength\<close>
  key_extractor :: "waveform \<Rightarrow> (string \<times> string \<times> real) option"
  \<comment> \<open>\<^verbatim>\<open>librosa.effects.hpss(y)\<close>: the harmonic component\<close>
  hpss :: "waveform \<Rightarrow> waveform option"
  \<comment> \<open>\<^verbatim>\<open>librosa.load(audio_path, sr=None)\<close>\<close>
  load :: "string \<Rightarrow> string + waveform \<times> nat"
  get_duration :: "waveform \<Rightarrow> nat \<Rightarrow> string + real"
  \<comment> \<open>the frame-wise features, already averaged by \<^verbatim>\<open>np.mean\<close>\<close>
  mean_spectral_centroid :: "waveform \<Rightarrow> nat \<Rightarrow> string + real"
  mean_zero_crossing_rate :: "waveform \<Rightarrow> string + real"
  mean_spectral_rolloff :: "waveform \<Rightarrow> nat \<Rightarrow> string + real"
  mean_spectral_bandwidth :: "waveform \<Rightarrow> nat \<Rightarrow> string + real"
  mean_mfcc :: "waveform \<Rightarrow> nat \<Rightarrow> string + real list"
  \<comment> \<open>\<^verbatim>\<open>np.max(rms) - np.min(rms)\<close> of \<^verbatim>\<open>librosa.feature.rms(y)[0]\<close>\<close>
  rms_range :: "waveform \<Rightarrow> string + real"

section \<open>The tempo strategies (\<^verbatim>\<open>advanced_bpm_detection\<close>, lines 140--215)\<close>

text \<open>Each strategy returns the candidates it appends; an exception inside its
  \<^verbatim>\<open>try\<close> block appends nothing.\<close>

text \<open>Method 1 (lines 145--153): beat tracking at three hop lengths, weight 0.7.\<close>

definition hop_lengths :: "nat list" where
  "hop_lengths = [512, 1024, 2048]"

definition beat_track_candidates :: "provider \<Rightarrow> waveform \<Rightarrow> nat \<Rightarrow> tempo_candidate list" where
  "beat_track_candidates P y sr =
     concat (map (\<lambda>hop_length.
        case beat_track P y sr hop_length of
          None \<Rightarrow> []
        | Some tempo \<Rightarrow> if 0 < tempo then [(tempo, 7 / 10)] else []) hop_lengths)"

text \<open>Method 2 (lines 156--167): onset intervals, weight 0.6. \<^verbatim>\<open>np.diff\<close> gives the
  differences of neighbours. A zero median makes the quotient infinite (numpy divides
  floats by zero without raising), which the range test rejects.\<close>

fun np_diff :: "real list \<Rightarrow> real list" where
  "np_diff (a # b # xs) = (b - a) # np_diff (b # xs)"
| "np_diff _ = []"

definition onset_candidates :: "provider \<Rightarrow> waveform \<Rightarrow> nat \<Rightarrow> tempo_candidate list" where
  "onset_candidates P y sr =
     (case onset_detect P y sr of
        None \<Rightarrow> []
      | Some onset_frames \<Rightarrow>
          if 3 < length onset_frames then
            (let onset_intervals = np_diff onset_frames
             in if 0 < length onset_intervals then
                  (let m = np_median onset_intervals
                   in if m = 0 then []
                      else (let onset_bpm = 60 / m
                            in if 40 \<le> onset_bpm \<and> onset_bpm \<le> 200
                               then [(onset_bpm, 6 / 10)] else []))
                else [])
          else [])"

text \<open>Method 3 (lines 170--181): the essentia histogram descriptor, weight 0.8. The
  audio it analyses is loaded from the file named \<^verbatim>\<open>temp\<close>.\<close>

definition essentia_candidates :: "provider \<Rightarrow> waveform \<Rightarrow> nat \<Rightarrow> tempo_candidate list" where
  "essentia_candidates P y sr =
     (case mono_loader P ''temp'' of
        None \<Rightarrow> []
      | Some audio_essentia \<Rightarrow>
          (case bpm_histogram_descriptors P audio_essentia of
             None \<Rightarrow> []
           | Some bpm \<Rightarrow> if 0 < bpm then [(bpm, 8 / 10)] else []))"

text \<open>Method 4 (lines 184--202): the first autocorrelation peak, weight 0.65.\<close>

definition autocorr_candidates :: "provider \<Rightarrow> waveform \<Rightarrow> nat \<Rightarrow> tempo_candidate list" where
  "autocorr_candidates P y sr =
     (case autocorr_peaks P y sr of
        None \<Rightarrow> []
      | Some peaks \<Rightarrow>
          (case peaks of
             [] \<Rightarrow> []
           | best_peak # _ \<Rightarrow>
               if 0 < best_peak then
                 (let bpm_autocorr = 60 * real sr / (real best_peak * 512)
                  in if 40 \<le> bpm_autocorr \<and> bpm_autocorr \<le> 200
                     then [(bpm_autocorr, 65 / 100)] else [])
               else []))"

text \<open>Method 5 (lines 205--215): dynamic tempo, weight 0.75. Indexing an empty result
  raises inside the \<^verbatim>\<open>try\<close> block.\<close>

definition dynamic_candidates :: "provider \<Rightarrow> waveform \<Rightarrow> nat \<Rightarrow> tempo_candidate list" where
  "dynamic_candidates P y sr =
     (case beat_tempo P y sr of
        None \<Rightarrow> []
      | Some utempo \<Rightarrow>
          (case utempo of
             [] \<Rightarrow> []
           | u # _ \<Rightarrow> if 0 < u then [(u, 75 / 100)] else []))"

definition tempo_candidates :: "provider \<Rightarrow> waveform \<Rightarrow> nat \<Rightarrow> tempo_candidate list" where
  "tempo_candidates P y sr =
     beat_track_candidates P y sr @ onset_candidates P y sr @ essentia_candidates P y sr
       @ autocorr_candidates P y sr @ dynamic_candidates P y sr"

definition advanced_bpm_detection :: "provider \<Rightarrow> waveform \<Rightarrow> nat \<Rightarrow> real option \<times> real" where
  "advanced_bpm_detection P y sr = aggregate_tempo (tempo_candidates P y sr)"

section \<open>Key detection (\<^verbatim>\<open>advanced_key_detection\<close>)\<close>

text \<open>Lines 276--283: the Krumhansl-Schmuckler profiles, normalised to sum 1, and the
  pitch names.\<close>

definition major_profile_raw :: "real list" where
  "major_profile_raw =
     [635 / 100, 223 / 100, 348 / 100, 233 / 100, 438 / 100, 409 / 100,
      252 / 100, 519 / 100, 239 / 100, 366 / 100, 229 / 100, 288 / 100]"

definition minor_profile_raw :: "real list" where
  "minor_profile_raw =
     [633 / 100, 268 / 100, 352 / 100, 538 / 100, 260 / 100, 353 / 100,
      254 / 100, 475 / 100, 398 / 100, 269 / 100, 334 / 100, 317 / 100]"

definition sum_normalize :: "real list \<Rightarrow> real list" where
  "sum_normalize xs = map (\<lambda>x. x / sum_list xs) xs"

definition major_profile :: "real list" where
  "major_profile = sum_normalize major_profile_raw"

definition minor_profile :: "real list" where
  "minor_profile = sum_normalize minor_profile_raw"

definition pitch_names :: "string list" where
  "pitch_names =
     [''C'', ''C#'', ''D'', ''D#'', ''E'', ''F'', ''F#'', ''G'', ''G#'', ''A'', ''A#'', ''B'']"

text \<open>\<^verbatim>\<open>np.roll(xs, i)\<close>: element \<open>n\<close> moves to position \<open>(n + i) mod length\<close>.\<close>

definition np_roll :: "'a list \<Rightarrow> nat \<Rightarrow> 'a list" where
  "np_roll xs i = rotate (length xs - i mod length xs) xs"

text \<open>\<^verbatim>\<open>np.corrcoef(a, b)[0, 1]\<close>: the sample covariance divided by both standard
  deviations and clipped to \<open>[-1, 1]\<close>. A vector of zero variance gives \<^verbatim>\<open>0/0\<close>, NaN,
  written \<open>None\<close>.\<close>

definition np_cov :: "real list \<Rightarrow> real list \<Rightarrow> real" where
  "np_cov a b =
     sum_list (map2 (\<lambda>x y. (x - np_mean a) * (y - np_mean b)) a b) / (real (length a) - 1)"

definition np_corrcoef :: "real list \<Rightarrow> real list \<Rightarrow> real option" where
  "np_corrcoef a b =
     (if np_cov a a = 0 \<or> np_cov b b = 0 then None
      else Some (max (- 1) (min 1 (np_cov a b / sqrt (np_cov a a) / sqrt (np_cov b b)))))"

text \<open>Lines 289--290 (and 325--326): the time-mean of each chroma row, divided by the
  sum of the means. A row without frames has mean NaN, and a zero sum divides by zero:
  either way the vector holds NaN or infinities and is \<open>None\<close>.\<close>

definition chroma_mean_normalized :: "real list list \<Rightarrow> real list option" where
  "chroma_mean_normalized chroma =
     (if [] \<in> set chroma then None
      else
        (let chroma_mean = map np_mean chroma
         in if sum_list chroma_mean = 0 then None
            else Some (map (\<lambda>x. x / sum_list chroma_mean) chroma_mean)))"

text \<open>A correlation with a vector that holds NaN is NaN.\<close>

definition profile_corr :: "real list option \<Rightarrow> real list \<Rightarrow> real option" where
  "profile_corr v shifted = (case v of None \<Rightarrow> None | Some a \<Rightarrow> np_corrcoef a shifted)"

type_synonym key_candidate = "string \<times> real"

text \<open>Lines 293--304 (and 328--339): for each pitch class the major and then the minor
  correlation, each appended unless it is NaN.\<close>

definition profile_scores :: "real list option \<Rightarrow> real \<Rightarrow> key_candidate list" where
  "profile_scores chroma_mean weight =
     concat (map (\<lambda>i.
        (case profile_corr chroma_mean (np_roll major_profile i) of
           None \<Rightarrow> []
         | Some major_corr \<Rightarrow> [(pitch_names ! i @ '' major'', major_corr * weight)])
        @
        (case profile_corr chroma_mean (np_roll minor_profile i) of
           None \<Rightarrow> []
         | Some minor_corr \<Rightarrow> [(pitch_names ! i @ '' minor'', minor_corr * weight)]))
      [0..<12])"

text \<open>\<^verbatim>\<open>np.corrcoef\<close> raises \<^verbatim>\<open>ValueError\<close> when the chroma vector does not have the
  profile's twelve entries.\<close>

definition shape_ok :: "real list list \<Rightarrow> bool" where
  "shape_ok chroma = (length chroma = 12)"

text \<open>Method 2 (lines 307--316): the essentia key extractor.\<close>

definition extractor_scores :: "provider \<Rightarrow> waveform \<Rightarrow> key_candidate list" where
  "extractor_scores P y =
     (case key_extractor P y of
        None \<Rightarrow> []
      | Some (key, scale, strength) \<Rightarrow>
          if 1 / 10 < strength then [(key @ '' '' @ scale, strength * (8 / 10))] else [])"

text \<open>Method 3 (lines 319--341): the CQT chroma of the harmonic component, weight 0.6.
  Any exception leaves the scores as they were: the first \<^verbatim>\<open>np.corrcoef\<close> call comes
  before the first append.\<close>

definition harmonic_scores :: "provider \<Rightarrow> waveform \<Rightarrow> nat \<Rightarrow> key_candidate list" where
  "harmonic_scores P y sr =
     (case hpss P y of
        None \<Rightarrow> []
      | Some harmonic \<Rightarrow>
          (case chroma_cqt P harmonic sr of
             None \<Rightarrow> []
           | Some chroma_harmonic \<Rightarrow>
               if shape_ok chroma_harmonic
               then profile_scores (chroma_mean_normalized chroma_harmonic) (6 / 10)
               else []))"

text \<open>Lines 347--352: the dictionary \<^verbatim>\<open>key_aggregated\<close>. A Python dictionary iterates in
  insertion order, so it is an association list: a new key goes to the end.\<close>

fun dict_add :: "key_candidate list \<Rightarrow> string \<Rightarrow> real \<Rightarrow> key_candidate list" where
  "dict_add [] key score = [(key, score)]"
| "dict_add ((k, v) # d) key score =
     (if k = key then (k, v + score) # d else (k, v) # dict_add d key score)"

definition aggregate_scores :: "key_candidate list \<Rightarrow> key_candidate list" where
  "aggregate_scores key_scores = foldl (\<lambda>d (key, score). dict_add d key score) [] key_scores"

text \<open>Line 355: \<^verbatim>\<open>max(key_aggregated, key=key_aggregated.get)\<close> walks the dictionary and
  replaces its current best only by a strictly greater value.\<close>

fun py_max_by :: "key_candidate \<Rightarrow> key_candidate list \<Rightarrow> key_candidate" where
  "py_max_by best [] = best"
| "py_max_by best (kv # rest) = py_max_by (if snd best < snd kv then kv else best) rest"

text \<open>Lines 343--361.\<close>

definition aggregate_key :: "key_candidate list \<Rightarrow> string \<times> real" where
  "aggregate_key key_scores =
     (if key_scores = [] then (''Unknown'', 0)
      else
        (case aggregate_scores key_scores of
           [] \<Rightarrow> (''Unknown'', 0)
         | first # others \<Rightarrow>
             (let (best_key, best_score) = py_max_by first others;
                  confidence = min 1 (max 0 best_score)
              in (best_key, py_round confidence 2))))"

text \<open>Lines 263--365. The three chromagrams of method 1 are computed outside any inner
  \<^verbatim>\<open>try\<close>: an exception there, or from \<^verbatim>\<open>np.corrcoef\<close> on a chroma of the wrong
  shape, reaches the outer handler, which returns \<^verbatim>\<open>("Unknown", 0.0)\<close>.\<close>

definition chroma_weights :: "real list" where
  "chroma_weights = [4 / 10, 4 / 10, 2 / 10]"

definition key_candidates :: "provider \<Rightarrow> waveform \<Rightarrow> nat \<Rightarrow> key_candidate list option" where
  "key_candidates P y sr =
     (case (chroma_stft P y sr, chroma_cqt P y sr, chroma_cens P y sr) of
        (Some c_stft, Some c_cqt, Some c_cens) \<Rightarrow>
          (let chromagrams = [c_stft, c_cqt, c_cens]
           in if list_all shape_ok chromagrams then
                Some (concat (map2 (\<lambda>chroma weight.
                          profile_scores (chroma_mean_normalized chroma) weight)
                        chromagrams chroma_weights)
                      @ extractor_scores P y @ harmonic_scores P y sr)
              else None)
      | _ \<Rightarrow> None)"

definition advanced_key_detection :: "provider \<Rightarrow> waveform \<Rightarrow> nat \<Rightarrow> string \<times> real" where
  "advanced_key_detection P y sr =
     (case key_candidates P y sr of
        None \<Rightarrow> (''Unknown'', 0)
      | Some key_scores \<Rightarrow> aggregate_key key_scores)"

section \<open>The summarizer (\<^verbatim>\<open>analyze_audio_features\<close>, lines 367--432)\<close>

record analysis_result =
  bpm :: "real option"
  bpm_confidence :: real
  key :: string
  key_confidence :: real
  duration :: "real option"
  spectral_centroid :: "real option"
  spectral_rolloff :: "real option"
  spectral_bandwidth :: "real option"
  zero_crossing_rate :: "real option"
  dynamic_range :: "real option"
  mfcc_features :: "real list option"
  sample_rate :: "nat option"
  analysis_success :: bool
  error :: "string option"

text \<open>Sequencing inside the \<^verbatim>\<open>try\<close> block: the first call that raises ends it.\<close>

definition try_bind :: "string + 'a \<Rightarrow> ('a \<Rightarrow> string + 'b) \<Rightarrow> string + 'b" where
  "try_bind m f = (case m of Inl e \<Rightarrow> Inl e | Inr v \<Rightarrow> f v)"

text \<open>Lines 374--413, the body of the \<^verbatim>\<open>try\<close> block.\<close>

definition analyze_body :: "provider \<Rightarrow> string \<Rightarrow> string + analysis_result" where
  "analyze_body P audio_path =
     try_bind (load P audio_path) (\<lambda>(y, sr).
       let (bpm_v, bpm_conf) = advanced_bpm_detection P y sr;
           (key_signature, key_conf) = advanced_key_detection P y sr
       in
     try_bind (get_duration P y sr) (\<lambda>duration_v.
     try_bind (mean_spectral_centroid P y sr) (\<lambda>centroid.
     try_bind (mean_zero_crossing_rate P y) (\<lambda>zcr.
     try_bind (mean_spectral_rolloff P y sr) (\<lambda>rolloff.
     try_bind (mean_spectral_bandwidth P y sr) (\<lambda>bandwidth.
     try_bind (mean_mfcc P y sr) (\<lambda>mfcc_mean.
     try_bind (rms_range P y) (\<lambda>dynamic_range_v.
       Inr \<lparr> bpm = bpm_v,
             bpm_confidence = (if bpm_v = None \<or> bpm_v = Some 0 then 0 else bpm_conf),
             key = key_signature,
             key_confidence = key_conf,
             duration = Some (py_round duration_v 2),
             spectral_centroid = Some (py_round centroid 1),
             spectral_rolloff = Some (py_round rolloff 1),
             spectral_bandwidth = Some (py_round bandwidth 1),
             zero_crossing_rate = Some (py_round zcr 4),
             dynamic_range = Some (py_round dynamic_range_v 4),
             mfcc_features = Some mfcc_mean,
             sample_rate = Some sr,
             analysis_success = True,
             error = None \<rparr>))))))))"

text \<open>Lines 415--432, the handler.\<close>

definition failure_result :: "string \<Rightarrow> analysis_result" where
  "failure_result e =
     \<lparr> bpm = None, bpm_confidence = 0, key = ''Unknown'', key_confidence = 0,
       duration = None, spectral_centroid = None, spectral_rolloff = None,
       spectral_bandwidth = None, zero_crossing_rate = None, dynamic_range = None,
       mfcc_features = None, sample_rate = None, analysis_success = False,
       error = Some e \<rparr>"

definition analyze_audio_features :: "provider \<Rightarrow> string \<Rightarrow> analysis_result" where
  "analyze_audio_features P audio_path =
     (case analyze_body P audio_path of Inl e \<Rightarrow> failure_result e | Inr r \<Rightarrow> r)"

section \<open>Notions used to state the properties\<close>

text \<open>The accumulated score of a slot: the sum of the scores of the candidates that
  carry its label. The dictionary of the source holds exactly these sums (lemma
  \<open>map_of_aggregate_scores\<close> below).\<close>

definition slot_total :: "key_candidate list \<Rightarrow> string \<Rightarrow> real" where
  "slot_total key_scores k = sum_list (map snd (filter (\<lambda>c. fst c = k) key_scores))"

text \<open>The elements of a list in the order of their first occurrence.\<close>

definition first_occurrences :: "'a list \<Rightarrow> 'a list" where
  "first_occurrences xs = rev (remdups (rev xs))"

text \<open>The 24 labels in the order of the loops of lines 293--304: ascending pitch class,
  major before minor.\<close>

definition slot_labels :: "string list" where
  "slot_labels =
     concat (map (\<lambda>i. [pitch_names ! i @ '' major'', pitch_names ! i @ '' minor'']) [0..<12])"

text \<open>The scores of one chromagram whose correlations are all defined.\<close>

definition score_table :: "(nat \<Rightarrow> real) \<Rightarrow> (nat \<Rightarrow> real) \<Rightarrow> real \<Rightarrow> key_candidate list" where
  "score_table cmaj cmin w =
     concat (map (\<lambda>i. [(pitch_names ! i @ '' major'', cmaj i * w),
                        (pitch_names ! i @ '' minor'', cmin i * w)]) [0..<12])"

section \<open>Concrete providers\<close>

text \<open>
  The provider of a silent recording, used to instantiate the theorems below: no beat, no
  onset, no file \<^verbatim>\<open>temp\<close>, chromagrams of one all-zero frame, and every summary feature
  available.
\<close>

definition silent_provider :: provider where
  "silent_provider =
     \<lparr> beat_track = (\<lambda>y sr hop_length. None),
       onset_detect = (\<lambda>y sr. Some []),
       mono_loader = (\<lambda>filename. None),
       bpm_histogram_descriptors = (\<lambda>audio. None),
       autocorr_peaks = (\<lambda>y sr. Some []),
       beat_tempo = (\<lambda>y sr. None),
       chroma_stft = (\<lambda>y sr. Some (replicate 12 [0])),
       chroma_cqt = (\<lambda>y sr. Some (replicate 12 [0])),
       chroma_cens = (\<lambda>y sr. Some (replicate 12 [0])),
       key_extractor = (\<lambda>y. None),
       hpss = (\<lambda>y. None),
       load = (\<lambda>audio_path. Inr ([0, 0, 0, 0], 4)),
       get_duration = (\<lambda>y sr. Inr 1),
       mean_spectral_centroid = (\<lambda>y sr. Inr 0),
       mean_zero_crossing_rate = (\<lambda>y. Inr 0),
       mean_spectral_rolloff = (\<lambda>y sr. Inr 0),
       mean_spectral_bandwidth = (\<lambda>y sr. Inr 0),
       mean_mfcc = (\<lambda>y sr. Inr (replicate 13 0)),
       rms_range = (\<lambda>y. Inr 0) \<rparr>"

text \<open>A provider of a steady recording: every beat tracker run answers 120, and the key
  extractor answers A minor with strength 0.5; everything else as for the silent one.\<close>

definition steady_provider :: provider where
  "steady_provider =
     silent_provider \<lparr> beat_track := (\<lambda>y sr hop_length. Some 120),
                       key_extractor := (\<lambda>y. Some (''A'', ''minor'', 1 / 2)) \<rparr>"

text \<open>A provider whose four chromagrams have the major profile rotated by \<open>k\<close> semitones
  as their time-mean, with a given answer of the key extractor.\<close>

definition profile_provider :: "nat \<Rightarrow> (string \<times> string \<times> real) option \<Rightarrow> provider" where
  "profile_provider k answer =
     silent_provider
       \<lparr> chroma_stft := (\<lambda>y sr. Some (map (\<lambda>x. [x]) (np_roll major_profile k))),
         chroma_cqt := (\<lambda>y sr. Some (map (\<lambda>x. [x]) (np_roll major_profile k))),
         chroma_cens := (\<lambda>y sr. Some (map (\<lambda>x. [x]) (np_roll major_profile k))),
         key_extractor := (\<lambda>y. answer),
         hpss := (\<lambda>y. Some y) \<rparr>"

section \<open>Properties of the tempo aggregator\<close>

lemma np_var_nonneg: "0 \<le> np_var xs"
  unfolding np_var_def np_mean_def
  by (intro divide_nonneg_nonneg sum_list_nonneg) auto

lemma valid_mask_iff: "valid_mask vs v \<longleftrightarrow> (v - np_median vs)\<^sup>2 \<le> 4 * np_var vs"
proof -
  have "\<bar>v - np_median vs\<bar> \<le> 2 * sqrt (np_var vs) \<longleftrightarrow>
        \<bar>v - np_median vs\<bar> \<le> \<bar>2 * sqrt (np_var vs)\<bar>"
    using np_var_nonneg [of vs] by simp
  also have "\<dots> \<longleftrightarrow> (v - np_median vs)\<^sup>2 \<le> (2 * sqrt (np_var vs))\<^sup>2"
    by (simp only: abs_le_square_iff)
  also have "(2 * sqrt (np_var vs))\<^sup>2 = 4 * np_var vs"
    using np_var_nonneg [of vs] by (simp add: power_mult_distrib)
  finally show ?thesis
    by (simp add: valid_mask_def np_std_def Let_def)
qed

lemma filter_remove1_only:
  "x \<in> set cs \<Longrightarrow> \<not> P x \<Longrightarrow> \<forall>c\<in>set (remove1 x cs). P c \<Longrightarrow> filter P cs = remove1 x cs"
proof (induction cs)
  case Nil
  then show ?case by simp
next
  case (Cons a cs)
  show ?case
  proof (cases "a = x")
    case True
    with Cons.prems show ?thesis by (simp add: filter_id_conv)
  next
    case False
    with Cons.prems have "P a" "x \<in> set cs" "\<forall>c\<in>set (remove1 x cs). P c" by auto
    with Cons.IH Cons.prems(2) False show ?thesis by simp
  qed
qed

lemma median_120_120_121_240: "np_median [120, 120, 121, 240] = 241 / 2"
  by (simp add: np_median_def Let_def)

lemma var_120_120_121_240: "np_var [120, 120, 121, 240] = 42963 / 16"
  by (simp add: np_var_def np_mean_def power2_eq_square)

lemma median_120_120_121: "np_median [120, 120, 121] = 120"
  by (simp add: np_median_def Let_def)

lemma var_120_120_121: "np_var [120, 120, 121] = 2 / 9"
  by (simp add: np_var_def np_mean_def power2_eq_square)

lemma remove_outliers_small: "length cs \<le> 2 \<Longrightarrow> remove_outliers cs = cs"
  by (simp add: remove_outliers_def)

lemma remove_outliers_all_valid:
  "\<forall>c\<in>set cs. valid_mask (map fst cs) (fst c) \<Longrightarrow> remove_outliers cs = cs"
  by (simp add: remove_outliers_def filter_id_conv)

lemma median_120_120_240: "np_median [120, 120, 240] = 120"
  by (simp add: np_median_def Let_def)

lemma var_120_120_240: "np_var [120, 120, 240] = 3200"
  by (simp add: np_var_def np_mean_def power2_eq_square)

lemma aggregate_tempo_filtered:
  "2 < length ds \<Longrightarrow>
     aggregate_tempo ds =
       (let kept = filter (\<lambda>c. \<bar>fst c - np_median (map fst ds)\<bar> \<le> 2 * np_std (map fst ds)) ds
        in if kept = [] \<or> sum_list (map snd kept) = 0 then (None, 0)
           else (Some (py_round (octave_correction
                         (np_average (map fst kept) (map snd kept))) 1),
                 py_round (np_mean (map snd kept)) 2))"
  by (auto simp: aggregate_tempo_def remove_outliers_def valid_mask_def weighted_result_def
      Let_def)

text \<open>
  Claim C1, as the code has it. The filter runs once, on the list it is given: with more
  than two candidates, a candidate \<open>x\<close> that alone deviates from the median by more
  than twice the population standard deviation is dropped, and the result is the rounded,
  octave-corrected weighted average of the remaining values with the rounded mean of the
  remaining weights. That equals the aggregator's result on the list without \<open>x\<close>
  whenever filtering the shorter list again removes nothing: it has at most two
  candidates, or each of them is within twice its own standard deviation of its own median.
\<close>

theorem outlier_rejection_single_pass:
  assumes big: "2 < length cs"
    and x_in: "x \<in> set cs"
    and x_out: "\<not> valid_mask (map fst cs) (fst x)"
    and rest_in: "\<forall>c\<in>set (remove1 x cs). valid_mask (map fst cs) (fst c)"
    and stable: "length (remove1 x cs) \<le> 2 \<or>
                 (\<forall>c\<in>set (remove1 x cs). valid_mask (map fst (remove1 x cs)) (fst c))"
  shows "remove_outliers cs = remove1 x cs \<and>
         aggregate_tempo cs = aggregate_tempo (remove1 x cs) \<and>
         (sum_list (map snd (remove1 x cs)) \<noteq> 0 \<longrightarrow>
            aggregate_tempo cs =
              (Some (py_round (octave_correction
                       (np_average (map fst (remove1 x cs)) (map snd (remove1 x cs)))) 1),
               py_round (np_mean (map snd (remove1 x cs))) 2)) \<and>
         (2 < length ds \<longrightarrow>
            aggregate_tempo ds =
              (let kept = filter (\<lambda>c. \<bar>fst c - np_median (map fst ds)\<bar>
                                          \<le> 2 * np_std (map fst ds)) ds
               in if kept = [] \<or> sum_list (map snd kept) = 0 then (None, 0)
                  else (Some (py_round (octave_correction
                                (np_average (map fst kept) (map snd kept))) 1),
                        py_round (np_mean (map snd kept)) 2)))"
proof -
  let ?kept = "remove1 x cs"
  have kept: "remove_outliers cs = ?kept"
    using big filter_remove1_only [of x cs "\<lambda>c. valid_mask (map fst cs) (fst c)"]
      x_in x_out rest_in
    by (simp add: remove_outliers_def)
  have "length ?kept = length cs - 1"
    using x_in by (simp add: length_remove1)
  with big have ne: "?kept \<noteq> []" "cs \<noteq> []"
    by auto
  have again: "remove_outliers ?kept = ?kept"
    using stable remove_outliers_small remove_outliers_all_valid by blast
  have full: "aggregate_tempo cs = weighted_result ?kept"
    using ne kept by (simp add: aggregate_tempo_def)
  have reduced: "aggregate_tempo ?kept = weighted_result ?kept"
    using ne again by (simp add: aggregate_tempo_def)
  have same: "aggregate_tempo cs = aggregate_tempo ?kept"
    using full reduced by simp
  have weighted: "sum_list (map snd ?kept) \<noteq> 0 \<longrightarrow>
            aggregate_tempo cs =
              (Some (py_round (octave_correction
                       (np_average (map fst ?kept) (map snd ?kept))) 1),
               py_round (np_mean (map snd ?kept)) 2)"
    using full by (simp add: weighted_result_def Let_def)
  from kept same weighted aggregate_tempo_filtered [of ds] show ?thesis
    by blast
qed

theorem outlier_rejection_single_pass_witness:
  "aggregate_tempo [(120, 7 / 10), (120, 7 / 10), (240, 3 / 4)] =
     aggregate_tempo [(120, 7 / 10), (120, 7 / 10)] \<and>
   aggregate_tempo [(120, 7 / 10), (120, 7 / 10), (240, 3 / 4)] = (Some 120, 7 / 10)"
proof -
  let ?cs = "[(120, 7 / 10), (120, 7 / 10), (240, 3 / 4)] :: tempo_candidate list"
  let ?x = "(240, 3 / 4) :: tempo_candidate"
  have h1: "2 < length ?cs" and h2: "?x \<in> set ?cs"
    by simp_all
  have h3: "\<not> valid_mask (map fst ?cs) (fst ?x)"
    by (simp add: valid_mask_iff median_120_120_240 var_120_120_240 power2_eq_square)
  have h4: "\<forall>c\<in>set (remove1 ?x ?cs). valid_mask (map fst ?cs) (fst c)"
    by (simp add: valid_mask_iff median_120_120_240 var_120_120_240 power2_eq_square)
  have h5: "length (remove1 ?x ?cs) \<le> 2 \<or>
            (\<forall>c\<in>set (remove1 ?x ?cs). valid_mask (map fst (remove1 ?x ?cs)) (fst c))"
    by simp
  have r: "remove1 ?x ?cs = [(120, 7 / 10), (120, 7 / 10)]"
    by simp
  have v: "(Some (py_round (octave_correction
                (np_average (map fst (remove1 ?x ?cs)) (map snd (remove1 ?x ?cs)))) 1),
            py_round (np_mean (map snd (remove1 ?x ?cs))) 2) = (Some 120, 7 / 10)"
    unfolding r
    by (simp add: np_average_def np_mean_def octave_correction_def py_round_def Let_def)
  have s: "sum_list (map snd (remove1 ?x ?cs)) \<noteq> 0"
    by simp
  note t = outlier_rejection_single_pass [OF h1 h2 h3 h4 h5]
  from t have "aggregate_tempo ?cs = aggregate_tempo (remove1 ?x ?cs)"
    by blast
  moreover from t s have "aggregate_tempo ?cs =
      (Some (py_round (octave_correction
                (np_average (map fst (remove1 ?x ?cs)) (map snd (remove1 ?x ?cs)))) 1),
       py_round (np_mean (map snd (remove1 ?x ?cs))) 2)"
    by blast
  then have "aggregate_tempo ?cs = (Some 120, 7 / 10)"
    by (simp only: v)
  ultimately show ?thesis
    unfolding r by blast
qed

text \<open>
  Claim C1 as stated fails without that proviso. In \<open>[120, 120, 121, 240]\<close> only 240 is an
  outlier and the result is 120.3; on \<open>[120, 120, 121]\<close> the filter runs again with a
  much smaller deviation, drops 121 and the result is 120.0.
\<close>

theorem outlier_rejection_counterexample:
  "\<not> valid_mask [120, 120, 121, 240] 240 \<and>
   valid_mask [120, 120, 121, 240] 120 \<and> valid_mask [120, 120, 121, 240] 121 \<and>
   aggregate_tempo [(120, 7 / 10), (120, 7 / 10), (121, 7 / 10), (240, 3 / 4)]
     = (Some (1203 / 10), 7 / 10) \<and>
   aggregate_tempo [(120, 7 / 10), (120, 7 / 10), (121, 7 / 10)] = (Some 120, 7 / 10)"
  by (simp add: aggregate_tempo_def remove_outliers_def valid_mask_iff
      median_120_120_121_240 var_120_120_121_240 median_120_120_121 var_120_120_121
      power2_eq_square weighted_result_def np_average_def np_mean_def
      octave_correction_def py_round_def Let_def)

text \<open>
  Claim C2. The correction is one non-recursive step applied to the weighted average of the
  surviving candidates: an aggregate above 160 is halved when the half lies in
  \<open>[80, 140]\<close>, otherwise an aggregate below 80 is doubled when the double lies in
  \<open>[120, 160]\<close>, otherwise it is kept; then the value is rounded to one decimal and the
  confidence to two. So an aggregate above 160 whose half is not in \<open>[80, 140]\<close> stays as
  it is, which happens exactly above 280. For an aggregate of 170 the half, 85, lies in the
  range, so of the two cases of the claim at 170 only the second arises: 170 becomes 85.
\<close>

theorem octave_correction_once:
  "octave_correction b =
     (if 160 < b \<and> 80 \<le> b / 2 \<and> b / 2 \<le> 140 then b / 2
      else if b < 80 \<and> 120 \<le> b * 2 \<and> b * 2 \<le> 160 then b * 2
      else b) \<and>
   aggregate_tempo cs =
     (if cs = [] then (None, 0)
      else
        (let kept = remove_outliers cs
         in if kept = [] \<or> sum_list (map snd kept) = 0 then (None, 0)
            else (Some (py_round (octave_correction
                          (np_average (map fst kept) (map snd kept))) 1),
                  py_round (np_mean (map snd kept)) 2))) \<and>
   (160 < b \<and> \<not> (80 \<le> b / 2 \<and> b / 2 \<le> 140) \<longrightarrow> octave_correction b = b) \<and>
   (160 < b \<longrightarrow> (octave_correction b = b \<longleftrightarrow> 280 < b)) \<and>
   octave_correction 170 = 85"
  by (simp add: octave_correction_def aggregate_tempo_def weighted_result_def Let_def)

theorem octave_correction_once_witness:
  "octave_correction 170 = 85 \<and> octave_correction 300 = 300 \<and>
   octave_correction 330 = 330 \<and> octave_correction 65 = 130 \<and>
   octave_correction 35 = 35 \<and>
   aggregate_tempo [(170, 7 / 10)] = (Some 85, 7 / 10) \<and>
   aggregate_tempo [(300, 7 / 10)] = (Some 300, 7 / 10) \<and>
   aggregate_tempo [(120, 7 / 10), (120, 7 / 10), (121, 7 / 10), (240, 3 / 4)]
     = (Some (1203 / 10), 7 / 10)"
proof -
  let ?four = "[(120, 7 / 10), (120, 7 / 10), (121, 7 / 10), (240, 3 / 4)] :: tempo_candidate list"
  have r: "remove_outliers [(170, 7 / 10)] = [(170, 7 / 10)]"
          "remove_outliers [(300, 7 / 10)] = [(300, 7 / 10)]"
          "remove_outliers ?four = [(120, 7 / 10), (120, 7 / 10), (121, 7 / 10)]"
    by (simp_all add: remove_outliers_def valid_mask_iff median_120_120_121_240
        var_120_120_121_240 power2_eq_square)
  have h: "(160 :: real) < 300 \<and> \<not> (80 \<le> (300 :: real) / 2 \<and> (300 :: real) / 2 \<le> 140)"
    by simp
  note a = octave_correction_once [of 170 "[(170, 7 / 10)]"]
  note b = octave_correction_once [of 300 "[(300, 7 / 10)]"]
  note c = octave_correction_once [of 330 ?four]
  note d = octave_correction_once [of 65 "[]"]
  note e = octave_correction_once [of 35 "[]"]
  have o170: "octave_correction 170 = 85"
    using a [THEN conjunct1] by simp
  have o300: "octave_correction 300 = 300"
    using b [THEN conjunct2, THEN conjunct2, THEN conjunct1] h
    by (rule mp)
  have o330: "octave_correction 330 = 330"
    using c [THEN conjunct1] by simp
  have o65: "octave_correction 65 = 130"
    using d [THEN conjunct1] by simp
  have o35: "octave_correction 35 = 35"
    using e [THEN conjunct1] by simp
  have t170: "aggregate_tempo [(170, 7 / 10)] = (Some 85, 7 / 10)"
    using a [THEN conjunct2, THEN conjunct1] unfolding r
    by (simp add: np_average_def np_mean_def o170 py_round_def Let_def)
  have t300: "aggregate_tempo [(300, 7 / 10)] = (Some 300, 7 / 10)"
    using b [THEN conjunct2, THEN conjunct1] unfolding r
    by (simp add: np_average_def np_mean_def o300 py_round_def Let_def)
  have t4: "aggregate_tempo ?four = (Some (1203 / 10), 7 / 10)"
    using c [THEN conjunct2, THEN conjunct1] unfolding r
    by (simp add: np_average_def np_mean_def octave_correction_def py_round_def Let_def)
  from o170 o300 o330 o65 o35 t170 t300 t4 show ?thesis
    by (intro conjI)
qed

section \<open>The essentia histogram strategy\<close>

text \<open>
  Claim C10. The candidates of the essentia histogram strategy do not depend on the
  analysed waveform or its sample rate: the strategy reads the file \<^verbatim>\<open>temp\<close> through the
  provider and never looks at its input. Two runs whose environments agree on that file
  and on the histogram descriptor emit the same candidates, whatever their inputs and
  whatever the rest of the environment does.
\<close>

theorem essentia_candidates_input_independent:
  "essentia_candidates P y sr = essentia_candidates P y' sr' \<and>
   (mono_loader P ''temp'' = mono_loader Q ''temp'' \<and>
    bpm_histogram_descriptors P = bpm_histogram_descriptors Q \<longrightarrow>
      essentia_candidates P y sr = essentia_candidates Q y' sr')"
  by (simp add: essentia_candidates_def split: option.splits)

theorem essentia_candidates_input_independent_witness:
  "essentia_candidates
     (silent_provider \<lparr> mono_loader := (\<lambda>filename. if filename = ''temp'' then Some [1, 2] else None),
                        bpm_histogram_descriptors := (\<lambda>audio. Some 96) \<rparr>)
     [0, 0, 0, 0] 4
   = essentia_candidates
     (silent_provider \<lparr> beat_track := (\<lambda>y sr hop_length. Some 120),
                        mono_loader := (\<lambda>filename. if filename = ''temp'' then Some [1, 2] else None),
                        bpm_histogram_descriptors := (\<lambda>audio. Some 96) \<rparr>)
     [1, 0, 1] 8 \<and>
   essentia_candidates
     (silent_provider \<lparr> mono_loader := (\<lambda>filename. if filename = ''temp'' then Some [1, 2] else None),
                        bpm_histogram_descriptors := (\<lambda>audio. Some 96) \<rparr>)
     [0, 0, 0, 0] 4 = [(96, 8 / 10)]"
  using essentia_candidates_input_independent
    [of "silent_provider \<lparr> mono_loader := (\<lambda>filename. if filename = ''temp'' then Some [1, 2] else None),
                        bpm_histogram_descriptors := (\<lambda>audio. Some 96) \<rparr>"
        "[0, 0, 0, 0]" 4 "[1, 0, 1]" 8
        "silent_provider \<lparr> beat_track := (\<lambda>y sr hop_length. Some 120),
                        mono_loader := (\<lambda>filename. if filename = ''temp'' then Some [1, 2] else None),
                        bpm_histogram_descriptors := (\<lambda>audio. Some 96) \<rparr>"]
  by (simp add: essentia_candidates_def)

section \<open>Empty candidate lists\<close>

lemma profile_scores_NaN: "profile_scores None w = []"
  by (simp add: profile_scores_def profile_corr_def)

lemma silent_tempo_candidates: "tempo_candidates silent_provider y sr = []"
  by (simp add: tempo_candidates_def beat_track_candidates_def onset_candidates_def
      essentia_candidates_def autocorr_candidates_def dynamic_candidates_def
      silent_provider_def hop_lengths_def)

lemma silent_chroma: "chroma_mean_normalized (replicate 12 [0]) = None"
  by (simp add: chroma_mean_normalized_def np_mean_def sum_list_replicate Let_def)

lemma silent_key_candidates: "key_candidates silent_provider y sr = Some []"
  by (simp add: key_candidates_def silent_provider_def shape_ok_def chroma_weights_def
      silent_chroma profile_scores_NaN extractor_scores_def harmonic_scores_def Let_def)

text \<open>
  Claim C6. Empty candidate lists give sentinel results, not errors: the tempo aggregator
  returns \<open>(None, 0)\<close> on no candidates and when no candidate survives the outlier filter,
  and the key aggregator returns \<open>(''Unknown'', 0)\<close> on no candidates; so do the two
  detection functions when their strategies produce nothing.
\<close>

theorem empty_candidates_sentinel:
  "aggregate_tempo [] = (None, 0) \<and>
   (remove_outliers cs = [] \<longrightarrow> aggregate_tempo cs = (None, 0)) \<and>
   aggregate_key [] = (''Unknown'', 0) \<and>
   (tempo_candidates P y sr = [] \<longrightarrow> advanced_bpm_detection P y sr = (None, 0)) \<and>
   (key_candidates P y sr = Some [] \<longrightarrow> advanced_key_detection P y sr = (''Unknown'', 0))"
  by (simp add: aggregate_tempo_def aggregate_key_def advanced_bpm_detection_def
      advanced_key_detection_def)

theorem empty_candidates_sentinel_witness:
  "remove_outliers [] = [] \<and> aggregate_tempo [] = (None, 0) \<and>
   tempo_candidates silent_provider [0, 0, 0, 0] 4 = [] \<and>
   advanced_bpm_detection silent_provider [0, 0, 0, 0] 4 = (None, 0) \<and>
   key_candidates silent_provider [0, 0, 0, 0] 4 = Some [] \<and>
   advanced_key_detection silent_provider [0, 0, 0, 0] 4 = (''Unknown'', 0)"
  using empty_candidates_sentinel [of "[]" silent_provider "[0, 0, 0, 0]" 4]
  by (simp add: silent_tempo_candidates silent_key_candidates remove_outliers_def)

section \<open>The failure boundary of the summarizer\<close>

lemma try_bind_Inr_iff:
  "try_bind m f = Inr r \<longleftrightarrow> (\<exists>v. m = Inr v \<and> f v = Inr r)"
  by (cases m) (simp_all add: try_bind_def)

lemma try_bind_Inl [simp]: "try_bind (Inl e) f = Inl e"
  by (simp add: try_bind_def)

lemma try_bind_Inr [simp]: "try_bind (Inr v) f = f v"
  by (simp add: try_bind_def)

lemma analyze_body_success:
  "analyze_body P path = Inr r \<Longrightarrow> analysis_success r"
  by (auto simp: analyze_body_def try_bind_Inr_iff Let_def case_prod_beta)

lemma analyze_body_Inr_iff:
  "load P path = Inr (y, sr) \<Longrightarrow>
   (\<exists>r. analyze_body P path = Inr r) \<longleftrightarrow>
     (\<not> isl (get_duration P y sr) \<and> \<not> isl (mean_spectral_centroid P y sr) \<and>
      \<not> isl (mean_zero_crossing_rate P y) \<and> \<not> isl (mean_spectral_rolloff P y sr) \<and>
      \<not> isl (mean_spectral_bandwidth P y sr) \<and> \<not> isl (mean_mfcc P y sr) \<and>
      \<not> isl (rms_range P y))"
  apply (simp add: analyze_body_def Let_def case_prod_beta)
  apply (cases "get_duration P y sr"; simp)
  apply (cases "mean_spectral_centroid P y sr"; simp)
  apply (cases "mean_zero_crossing_rate P y"; simp)
  apply (cases "mean_spectral_rolloff P y sr"; simp)
  apply (cases "mean_spectral_bandwidth P y sr"; simp)
  apply (cases "mean_mfcc P y sr"; simp)
  apply (cases "rms_range P y"; simp)
  done

lemma not_success_is_failure:
  assumes "\<not> analysis_success (analyze_audio_features P path)"
  shows "\<exists>m. analyze_body P path = Inl m \<and> analyze_audio_features P path = failure_result m"
proof (cases "analyze_body P path")
  case (Inl m)
  then show ?thesis by (simp add: analyze_audio_features_def)
next
  case (Inr r)
  with assms analyze_body_success [of P path r] show ?thesis
    by (simp add: analyze_audio_features_def)
qed

text \<open>
  Claim C5, as the code has it. \<open>analyze_audio_features\<close> always returns a result. When
  decoding raises, or decoding succeeds and a feature extraction raises, the result is the
  failure record: success is false, \<open>bpm\<close> and every feature are null, both confidences
  are zero, and the error field holds the message of the exception. The result is a
  success exactly when decoding and all seven extractions return. The error field is the
  exception's \<^verbatim>\<open>str(e)\<close>, whatever that is.
\<close>

theorem failure_boundary:
  "(load P path = Inl e \<longrightarrow> analyze_audio_features P path = failure_result e) \<and>
   (load P path = Inr (y, sr) \<longrightarrow>
      (analysis_success (analyze_audio_features P path) \<longleftrightarrow>
         \<not> isl (get_duration P y sr) \<and> \<not> isl (mean_spectral_centroid P y sr) \<and>
         \<not> isl (mean_zero_crossing_rate P y) \<and> \<not> isl (mean_spectral_rolloff P y sr) \<and>
         \<not> isl (mean_spectral_bandwidth P y sr) \<and> \<not> isl (mean_mfcc P y sr) \<and>
         \<not> isl (rms_range P y))) \<and>
   (load P path = Inr (y, sr) \<and> get_duration P y sr = Inl e \<longrightarrow>
      analyze_audio_features P path = failure_result e) \<and>
   (\<not> analysis_success (analyze_audio_features P path) \<longrightarrow>
      (\<exists>m. analyze_body P path = Inl m \<and>
           analyze_audio_features P path =
             \<lparr> bpm = None, bpm_confidence = 0, key = ''Unknown'', key_confidence = 0,
               duration = None, spectral_centroid = None, spectral_rolloff = None,
               spectral_bandwidth = None, zero_crossing_rate = None, dynamic_range = None,
               mfcc_features = None, sample_rate = None, analysis_success = False,
               error = Some m \<rparr>))"
proof (intro conjI impI)
  assume "load P path = Inl e"
  then show "analyze_audio_features P path = failure_result e"
    by (simp add: analyze_audio_features_def analyze_body_def)
next
  assume l: "load P path = Inr (y, sr)"
  show "analysis_success (analyze_audio_features P path) \<longleftrightarrow>
         \<not> isl (get_duration P y sr) \<and> \<not> isl (mean_spectral_centroid P y sr) \<and>
         \<not> isl (mean_zero_crossing_rate P y) \<and> \<not> isl (mean_spectral_rolloff P y sr) \<and>
         \<not> isl (mean_spectral_bandwidth P y sr) \<and> \<not> isl (mean_mfcc P y sr) \<and>
         \<not> isl (rms_range P y)"
  proof (cases "analyze_body P path")
    case (Inl m)
    then have "\<not> (\<exists>r. analyze_body P path = Inr r)" by simp
    with analyze_body_Inr_iff [OF l] Inl show ?thesis
      by (simp add: analyze_audio_features_def failure_result_def)
  next
    case (Inr r)
    then have "\<exists>r. analyze_body P path = Inr r" by blast
    with analyze_body_Inr_iff [OF l] Inr analyze_body_success [OF Inr] show ?thesis
      by (simp add: analyze_audio_features_def)
  qed
next
  assume "load P path = Inr (y, sr) \<and> get_duration P y sr = Inl e"
  then show "analyze_audio_features P path = failure_result e"
    by (simp add: analyze_audio_features_def analyze_body_def Let_def case_prod_beta)
next
  assume "\<not> analysis_success (analyze_audio_features P path)"
  from not_success_is_failure [OF this] show
    "\<exists>m. analyze_body P path = Inl m \<and>
           analyze_audio_features P path =
             \<lparr> bpm = None, bpm_confidence = 0, key = ''Unknown'', key_confidence = 0,
               duration = None, spectral_centroid = None, spectral_rolloff = None,
               spectral_bandwidth = None, zero_crossing_rate = None, dynamic_range = None,
               mfcc_features = None, sample_rate = None, analysis_success = False,
               error = Some m \<rparr>"
    by (simp add: failure_result_def)
qed

theorem failure_boundary_witness:
  "analyze_audio_features (silent_provider \<lparr> load := (\<lambda>audio_path. Inl ''no backend'') \<rparr>)
     ''missing.wav'' = failure_result ''no backend'' \<and>
   analyze_audio_features (silent_provider \<lparr> get_duration := (\<lambda>y sr. Inl ''bad input'') \<rparr>)
     ''a.wav'' = failure_result ''bad input'' \<and>
   analysis_success (analyze_audio_features silent_provider ''a.wav'')"
  using
    failure_boundary [of "silent_provider \<lparr> load := (\<lambda>audio_path. Inl ''no backend'') \<rparr>"
      "''missing.wav''" "''no backend''" "[]" 0]
    failure_boundary [of "silent_provider \<lparr> get_duration := (\<lambda>y sr. Inl ''bad input'') \<rparr>"
      "''a.wav''" "''bad input''" "[0, 0, 0, 0]" 4]
    failure_boundary [of silent_provider "''a.wav''" "''''" "[0, 0, 0, 0]" 4]
  by (simp add: silent_provider_def)

text \<open>
  Claim C5 as stated also makes the error field non-empty. An exception raised without a
  message has \<^verbatim>\<open>str(e) == ""\<close>, and the handler stores that string as it is.
\<close>

theorem empty_error_message_counterexample:
  "\<not> analysis_success
       (analyze_audio_features (silent_provider \<lparr> load := (\<lambda>audio_path. Inl '''') \<rparr>) ''a.wav'') \<and>
   error (analyze_audio_features (silent_provider \<lparr> load := (\<lambda>audio_path. Inl '''') \<rparr>) ''a.wav'')
     = Some ''''"
  by (simp add: analyze_audio_features_def analyze_body_def failure_result_def)

section \<open>The onset-interval strategy\<close>

lemma length_np_diff: "length (np_diff xs) = length xs - 1"
  by (induction xs rule: np_diff.induct) simp_all

lemma np_diff_Nil_iff: "np_diff xs = [] \<longleftrightarrow> length xs \<le> 1"
  by (induction xs rule: np_diff.induct) simp_all

lemma nth_np_diff: "Suc i < length xs \<Longrightarrow> np_diff xs ! i = xs ! Suc i - xs ! i"
proof (induction xs arbitrary: i rule: np_diff.induct)
  case (1 a b xs)
  then show ?case by (cases i) simp_all
qed simp_all

lemma np_diff_uniform:
  "np_diff (map (\<lambda>i. t0 + real i * d) [0..<n]) = replicate (n - 1) d"
proof (rule nth_equalityI)
  show "length (np_diff (map (\<lambda>i. t0 + real i * d) [0..<n])) = length (replicate (n - 1) d)"
    by (simp add: length_np_diff)
next
  fix i
  assume "i < length (np_diff (map (\<lambda>i. t0 + real i * d) [0..<n]))"
  then have i: "Suc i < n"
    by (simp add: length_np_diff)
  then show "np_diff (map (\<lambda>i. t0 + real i * d) [0..<n]) ! i = replicate (n - 1) d ! i"
    by (simp add: nth_np_diff algebra_simps)
qed

lemma np_median_replicate: "0 < m \<Longrightarrow> np_median (replicate m d) = d"
proof -
  assume m: "0 < m"
  have s: "sort (replicate m d) = replicate m d"
    by (simp add: sorted_replicate sort_key_id_if_sorted)
  have "m div 2 < m" "m div 2 - 1 < m"
    using m by simp_all
  then show ?thesis
    by (simp add: np_median_def s Let_def)
qed

lemma single_candidate:
  "w \<noteq> 0 \<Longrightarrow>
   aggregate_tempo [(v, w)] = (Some (py_round (octave_correction v) 1), py_round w 2)"
  by (simp add: aggregate_tempo_def remove_outliers_def weighted_result_def np_average_def
      np_mean_def)

text \<open>
  Claim C7. The onset strategy contributes a candidate exactly when onset detection
  returns more than three timestamps and 60 divided by the median inter-onset interval
  lies in \<open>[40, 200]\<close>; the candidate is that quotient with weight 0.6. (A zero median
  gives no candidate; \<open>60 / 0\<close> is \<open>0\<close> in HOL, outside the range, as the source's
  infinite quotient is.) With \<open>n > 3\<close> onsets spaced 0.46875 s apart and every other
  strategy contributing nothing, the detection returns 128 BPM with confidence 0.6.
\<close>

theorem onset_interval_strategy:
  "onset_candidates P y sr =
     (case onset_detect P y sr of
        None \<Rightarrow> []
      | Some ts \<Rightarrow>
          if 3 < length ts \<and> 40 \<le> 60 / np_median (np_diff ts) \<and>
             60 / np_median (np_diff ts) \<le> 200
          then [(60 / np_median (np_diff ts), 6 / 10)] else []) \<and>
   (3 < n \<and> onset_detect P y sr = Some (map (\<lambda>i. t0 + real i * (46875 / 100000)) [0..<n]) \<and>
    beat_track_candidates P y sr = [] \<and> essentia_candidates P y sr = [] \<and>
    autocorr_candidates P y sr = [] \<and> dynamic_candidates P y sr = [] \<longrightarrow>
      tempo_candidates P y sr = [(128, 6 / 10)] \<and>
      advanced_bpm_detection P y sr = (Some 128, 6 / 10))"
proof (rule conjI, goal_cases)
  case 1
  show "onset_candidates P y sr =
     (case onset_detect P y sr of
        None \<Rightarrow> []
      | Some ts \<Rightarrow>
          if 3 < length ts \<and> 40 \<le> 60 / np_median (np_diff ts) \<and>
             60 / np_median (np_diff ts) \<le> 200
          then [(60 / np_median (np_diff ts), 6 / 10)] else [])"
    by (auto simp: onset_candidates_def np_diff_Nil_iff Let_def split: option.splits)
next
  case 2
  show ?case
  proof (rule impI)
  assume a: "3 < n \<and> onset_detect P y sr = Some (map (\<lambda>i. t0 + real i * (46875 / 100000)) [0..<n]) \<and>
    beat_track_candidates P y sr = [] \<and> essentia_candidates P y sr = [] \<and>
    autocorr_candidates P y sr = [] \<and> dynamic_candidates P y sr = []"
  then have "0 < n - 1" by simp
  then have med: "np_median (replicate (n - 1) (46875 / 100000)) = 46875 / 100000"
    by (rule np_median_replicate)
  from a have od: "onset_detect P y sr = Some (map (\<lambda>i. t0 + real i * (46875 / 100000)) [0..<n])"
    by blast
  have len: "3 < length (map (\<lambda>i. t0 + real i * (46875 / 100000)) [0..<n])"
            "0 < length (replicate (n - 1) (46875 / 100000 :: real))"
    using a by simp_all
  have "onset_candidates P y sr = [(128, 6 / 10)]"
    unfolding onset_candidates_def od option.case Let_def np_diff_uniform med
    using len by (simp del: length_map length_replicate)
  with a have c: "tempo_candidates P y sr = [(128, 6 / 10)]"
    by (simp add: tempo_candidates_def)
  have "aggregate_tempo [(128, 6 / 10)] = (Some 128, 6 / 10)"
    by (simp add: single_candidate octave_correction_def py_round_def Let_def)
  with c show "tempo_candidates P y sr = [(128, 6 / 10)] \<and>
      advanced_bpm_detection P y sr = (Some 128, 6 / 10)"
    by (simp add: advanced_bpm_detection_def)
  qed
qed

theorem onset_interval_strategy_witness:
  "advanced_bpm_detection
     (silent_provider \<lparr> onset_detect :=
        (\<lambda>y sr. Some (map (\<lambda>i. 1 / 2 + real i * (46875 / 100000)) [0..<5])) \<rparr>)
     [0, 0, 0, 0] 4 = (Some 128, 6 / 10) \<and>
   \<bar>128 - (128 :: real)\<bar> \<le> 1"
proof -
  let ?P = "silent_provider \<lparr> onset_detect :=
        (\<lambda>y sr. Some (map (\<lambda>i. 1 / 2 + real i * (46875 / 100000)) [0..<5])) \<rparr>"
  have h: "3 < (5 :: nat) \<and>
      onset_detect ?P [0, 0, 0, 0] 4 =
        Some (map (\<lambda>i. 1 / 2 + real i * (46875 / 100000)) [0..<5]) \<and>
      beat_track_candidates ?P [0, 0, 0, 0] 4 = [] \<and>
      essentia_candidates ?P [0, 0, 0, 0] 4 = [] \<and>
      autocorr_candidates ?P [0, 0, 0, 0] 4 = [] \<and>
      dynamic_candidates ?P [0, 0, 0, 0] 4 = []"
    by (simp add: silent_provider_def beat_track_candidates_def essentia_candidates_def
        autocorr_candidates_def dynamic_candidates_def hop_lengths_def)
  from onset_interval_strategy [of ?P "[0, 0, 0, 0]" 4 5 "1 / 2"] h
  have "advanced_bpm_detection ?P [0, 0, 0, 0] 4 = (Some 128, 6 / 10)"
    by blast
  then show ?thesis
    by simp
qed

section \<open>Properties of the key aggregator\<close>

lemma slot_total_append: "slot_total (xs @ ys) k = slot_total xs k + slot_total ys k"
  by (simp add: slot_total_def)

lemma slot_total_Nil: "slot_total [] k = 0"
  by (simp add: slot_total_def)

lemma slot_total_Cons: "slot_total ((a, s) # xs) k = (if a = k then s else 0) + slot_total xs k"
  by (simp add: slot_total_def)

lemma slot_total_absent: "k \<notin> fst ` set ks \<Longrightarrow> slot_total ks k = 0"
  by (induction ks) (auto simp: slot_total_def)

lemma first_occurrences_snoc:
  "first_occurrences (xs @ [k]) =
     (if k \<in> set xs then first_occurrences xs else first_occurrences xs @ [k])"
  by (simp add: first_occurrences_def)

lemma set_first_occurrences: "set (first_occurrences xs) = set xs"
  by (simp add: first_occurrences_def)

lemma distinct_first_occurrences: "distinct (first_occurrences xs)"
  by (simp add: first_occurrences_def)

lemma first_occurrences_split:
  "K \<notin> set p \<Longrightarrow> \<exists>q'. first_occurrences (p @ K # q) = first_occurrences p @ K # q'"
proof (induction q rule: rev_induct)
  case Nil
  then show ?case
    using first_occurrences_snoc [of p K] by simp
next
  case (snoc z q)
  then obtain q' where q': "first_occurrences (p @ K # q) = first_occurrences p @ K # q'"
    by blast
  have "first_occurrences (p @ K # q @ [z]) = first_occurrences ((p @ K # q) @ [z])"
    by simp
  also have "\<dots> = (if z \<in> set (p @ K # q) then first_occurrences (p @ K # q)
                    else first_occurrences (p @ K # q) @ [z])"
    by (rule first_occurrences_snoc)
  finally show ?case
    using q' by auto
qed

lemma map_fst_dict_add:
  "map fst (dict_add d k s) = (if k \<in> fst ` set d then map fst d else map fst d @ [k])"
  by (induction d k s rule: dict_add.induct) auto

lemma map_of_dict_add:
  "map_of (dict_add d k s) =
     (map_of d)(k \<mapsto> (case map_of d k of None \<Rightarrow> s | Some v \<Rightarrow> v + s))"
  by (induction d k s rule: dict_add.induct) (auto simp: fun_eq_iff)

lemma aggregate_scores_snoc:
  "aggregate_scores (ks @ [(k, s)]) = dict_add (aggregate_scores ks) k s"
  by (simp add: aggregate_scores_def)

lemma keys_aggregate_scores:
  "map fst (aggregate_scores ks) = first_occurrences (map fst ks)"
proof (induction ks rule: rev_induct)
  case Nil
  then show ?case by (simp add: aggregate_scores_def first_occurrences_def)
next
  case (snoc c ks)
  obtain k s where c: "c = (k, s)" by (cases c)
  have "set (map fst (aggregate_scores ks)) = set (map fst ks)"
    by (simp only: snoc.IH set_first_occurrences)
  then have "k \<in> fst ` set (aggregate_scores ks) \<longleftrightarrow> k \<in> set (map fst ks)"
    by simp
  then show ?case
    unfolding c aggregate_scores_snoc map_fst_dict_add
    using snoc.IH first_occurrences_snoc [of "map fst ks" k] by simp
qed

lemma distinct_aggregate_scores: "distinct (map fst (aggregate_scores ks))"
  by (simp add: keys_aggregate_scores distinct_first_occurrences)

lemma map_of_aggregate_scores:
  "map_of (aggregate_scores ks) k =
     (if k \<in> fst ` set ks then Some (slot_total ks k) else None)"
proof (induction ks arbitrary: k rule: rev_induct)
  case Nil
  then show ?case by (simp add: aggregate_scores_def)
next
  case (snoc c ks)
  obtain k' s where c: "c = (k', s)" by (cases c)
  show ?case
  proof (cases "k = k'")
    case True
    then show ?thesis
      unfolding c aggregate_scores_snoc map_of_dict_add
      using snoc.IH [of k']
      by (simp add: slot_total_append slot_total_Cons slot_total_Nil slot_total_absent)
  next
    case False
    then show ?thesis
      unfolding c aggregate_scores_snoc map_of_dict_add
      using snoc.IH [of k]
      by (simp add: slot_total_append slot_total_Cons slot_total_Nil)
  qed
qed

lemma in_aggregate_scores:
  "(k, v) \<in> set (aggregate_scores ks) \<longleftrightarrow> k \<in> fst ` set ks \<and> v = slot_total ks k"
proof -
  have "(k, v) \<in> set (aggregate_scores ks) \<longleftrightarrow> map_of (aggregate_scores ks) k = Some v"
    using distinct_aggregate_scores [of ks] by simp
  also have "\<dots> \<longleftrightarrow> k \<in> fst ` set ks \<and> v = slot_total ks k"
    unfolding map_of_aggregate_scores by (cases "k \<in> fst ` set ks") auto
  finally show ?thesis .
qed

lemma aggregate_scores_eq_Nil: "aggregate_scores ks = [] \<longleftrightarrow> ks = []"
proof -
  have "set (map fst (aggregate_scores ks)) = set (map fst ks)"
    by (simp only: keys_aggregate_scores set_first_occurrences)
  then have "fst ` set (aggregate_scores ks) = {} \<longleftrightarrow> fst ` set ks = {}"
    by simp
  then have "set (aggregate_scores ks) = {} \<longleftrightarrow> set ks = {}"
    by (simp only: image_is_empty)
  then show ?thesis
    by simp
qed

lemma py_max_by_mem: "py_max_by b xs \<in> set (b # xs)"
  by (induction xs arbitrary: b) auto

lemma py_max_by_ge: "kv \<in> set (b # xs) \<Longrightarrow> snd kv \<le> snd (py_max_by b xs)"
proof (induction xs arbitrary: b kv)
  case Nil
  then show ?case by simp
next
  case (Cons a xs)
  define b' where "b' = (if snd b < snd a then a else b)"
  have r: "py_max_by b (a # xs) = py_max_by b' xs"
    by (simp add: b'_def)
  have up: "snd b \<le> snd b'" "snd a \<le> snd b'"
    by (simp_all add: b'_def)
  have step: "snd b' \<le> snd (py_max_by b' xs)"
    by (rule Cons.IH) simp
  from Cons.prems consider "kv = b" | "kv = a" | "kv \<in> set xs"
    by auto
  then show ?case
  proof cases
    case 1
    with up(1) step show ?thesis unfolding r by simp
  next
    case 2
    with up(2) step show ?thesis unfolding r by simp
  next
    case 3
    then have "snd kv \<le> snd (py_max_by b' xs)"
      by (intro Cons.IH) simp
    then show ?thesis unfolding r .
  qed
qed

lemma py_max_by_first:
  "\<exists>pre post. b # xs = pre @ py_max_by b xs # post \<and>
      (\<forall>kv\<in>set pre. snd kv < snd (py_max_by b xs))"
proof (induction xs arbitrary: b)
  case Nil
  show ?case by (intro exI [of _ "[]"]) simp
next
  case (Cons a xs)
  define b' where "b' = (if snd b < snd a then a else b)"
  define r where "r = py_max_by b' xs"
  have r: "py_max_by b (a # xs) = r"
    by (simp add: b'_def r_def)
  from Cons.IH [of b'] obtain pre post where
    split: "b' # xs = pre @ r # post" and small: "\<forall>kv\<in>set pre. snd kv < snd r"
    unfolding r_def by blast
  have ge: "snd b' \<le> snd r"
    unfolding r_def by (rule py_max_by_ge) simp
  have "\<exists>pre post. b # a # xs = pre @ r # post \<and> (\<forall>kv\<in>set pre. snd kv < snd r)"
  proof (cases "snd b < snd a")
    case True
    then have b': "b' = a" by (simp add: b'_def)
    have "b # a # xs = (b # pre) @ r # post"
      using split b' by simp
    moreover have "\<forall>kv\<in>set (b # pre). snd kv < snd r"
      using small ge True b' by auto
    ultimately show ?thesis by blast
  next
    case False
    then have b': "b' = b" by (simp add: b'_def)
    show ?thesis
    proof (cases pre)
      case Nil
      with split b' have "b # a # xs = [] @ r # (a # xs)"
        by simp
      moreover have "\<forall>kv\<in>set []. snd kv < snd r"
        by simp
      ultimately show ?thesis by blast
    next
      case (Cons p pre')
      with split b' have p: "p = b" and xs: "xs = pre' @ r # post"
        by simp_all
      have "snd b < snd r"
        using small Cons p by simp
      with False have "snd a < snd r" by simp
      then have "\<forall>kv\<in>set (b # a # pre'). snd kv < snd r"
        using small Cons p by simp
      moreover have "b # a # xs = (b # a # pre') @ r # post"
        using xs by simp
      ultimately show ?thesis by blast
    qed
  qed
  then show ?case unfolding r .
qed

lemma aggregate_key_first_max:
  assumes ne: "ks \<noteq> []"
  obtains K pre post where
    "aggregate_key ks = (K, py_round (min 1 (max 0 (slot_total ks K))) 2)"
    "K \<in> fst ` set ks"
    "\<forall>k\<in>fst ` set ks. slot_total ks k \<le> slot_total ks K"
    "map fst ks = pre @ K # post"
    "\<forall>k\<in>set pre. slot_total ks k < slot_total ks K"
proof -
  define D where "D = aggregate_scores ks"
  from ne have "D \<noteq> []"
    by (simp add: D_def aggregate_scores_eq_Nil)
  then obtain first others where D: "D = first # others"
    by (cases D) auto
  define r where "r = py_max_by first others"
  obtain K v where r: "r = (K, v)"
    by (cases r)
  have r_in: "(K, v) \<in> set D"
    using py_max_by_mem [of first others] by (simp add: D r_def [symmetric] r)
  then have K_in: "K \<in> fst ` set ks" and v: "v = slot_total ks K"
    by (simp_all add: D_def in_aggregate_scores)
  have result: "aggregate_key ks = (K, py_round (min 1 (max 0 (slot_total ks K))) 2)"
    using ne by (simp add: aggregate_key_def D_def [symmetric] D r_def [symmetric] r v Let_def)
  have max: "\<forall>k\<in>fst ` set ks. slot_total ks k \<le> slot_total ks K"
  proof
    fix k assume "k \<in> fst ` set ks"
    then have "(k, slot_total ks k) \<in> set (first # others)"
      by (simp add: D [symmetric] D_def in_aggregate_scores)
    from py_max_by_ge [OF this] show "slot_total ks k \<le> slot_total ks K"
      by (simp add: r_def [symmetric] r v)
  qed
  from py_max_by_first [of first others] obtain dpre dpost where
    dsplit: "D = dpre @ (K, v) # dpost" and dsmall: "\<forall>kv\<in>set dpre. snd kv < v"
    by (auto simp: D r_def [symmetric] r)
  from K_in have "K \<in> set (map fst ks)"
    by simp
  from split_list_first [OF this] obtain p q where
    psplit: "map fst ks = p @ K # q" and K_p: "K \<notin> set p"
    by blast
  from first_occurrences_split [OF K_p, of q] obtain q' where
    "first_occurrences (map fst ks) = first_occurrences p @ K # q'"
    unfolding psplit by blast
  then have keys: "map fst dpre @ K # map fst dpost = first_occurrences p @ K # q'"
    using keys_aggregate_scores [of ks] by (simp add: D_def [symmetric] dsplit)
  have "distinct (map fst D)"
    by (simp add: D_def distinct_aggregate_scores)
  then have K_dpre: "K \<notin> set (map fst dpre)" and K_dpost: "K \<notin> set (map fst dpost)"
    by (simp_all add: dsplit)
  have "map fst dpre @ K # map fst dpost = first_occurrences p @ K # q' \<longleftrightarrow>
        map fst dpre = first_occurrences p \<and> map fst dpost = q'"
    using K_dpre K_dpost by (rule append_Cons_eq_iff)
  with keys have "map fst dpre = first_occurrences p"
    by (simp only:)
  then have "set (map fst dpre) = set (first_occurrences p)"
    by (simp only:)
  then have same: "set p = fst ` set dpre"
    by (simp add: set_first_occurrences)
  have first: "\<forall>k\<in>set p. slot_total ks k < slot_total ks K"
  proof
    fix k assume "k \<in> set p"
    with same obtain u where u: "(k, u) \<in> set dpre"
      by auto
    then have "(k, u) \<in> set (aggregate_scores ks)"
      by (simp add: D_def [symmetric] dsplit)
    then have "u = slot_total ks k"
      by (simp add: in_aggregate_scores)
    with dsmall u show "slot_total ks k < slot_total ks K"
      by (auto simp: v)
  qed
  from that [OF result K_in max psplit first] show thesis .
qed

lemma upt_12: "[0..<12] = [0, 1, 2, 3, 4, 5, 6, 7, 8, 9, 10, 11 :: nat]"
  by (simp add: upt_rec)

lemma slot_labels_explicit:
  "slot_labels =
     [''C major'', ''C minor'', ''C# major'', ''C# minor'', ''D major'', ''D minor'',
      ''D# major'', ''D# minor'', ''E major'', ''E minor'', ''F major'', ''F minor'',
      ''F# major'', ''F# minor'', ''G major'', ''G minor'', ''G# major'', ''G# minor'',
      ''A major'', ''A minor'', ''A# major'', ''A# minor'', ''B major'', ''B minor'']"
  by (simp add: slot_labels_def pitch_names_def upt_12)

lemma length_slot_labels: "length slot_labels = 24"
  by (simp add: slot_labels_explicit)

text \<open>
  Claim C3, as the code has it. The selected slot holds the maximal accumulated score, and
  every slot whose first candidate stands earlier in the candidate list holds a strictly
  smaller one: among slots tied at the maximum, \<^verbatim>\<open>max\<close> returns the one inserted first into
  the dictionary. When the candidate list starts with the 24 labels in loop order
  (ascending pitch class, major before minor), as it does whenever the first chromagram
  is not degenerate, the selected slot is the earliest of the tied slots in that order.
\<close>

theorem key_tie_break_first_inserted:
  assumes ne: "key_scores \<noteq> []"
  shows "(\<exists>pre post.
           map fst key_scores = pre @ fst (aggregate_key key_scores) # post \<and>
           (\<forall>k\<in>set pre.
              slot_total key_scores k < slot_total key_scores (fst (aggregate_key key_scores))) \<and>
           (\<forall>k\<in>set post.
              slot_total key_scores k \<le> slot_total key_scores (fst (aggregate_key key_scores)))) \<and>
         (\<forall>rest j. map fst key_scores = slot_labels @ rest \<and> j < 24 \<and>
              slot_total key_scores (slot_labels ! j)
                = slot_total key_scores (fst (aggregate_key key_scores)) \<longrightarrow>
              (\<exists>i\<le>j. fst (aggregate_key key_scores) = slot_labels ! i))"
proof -
  from aggregate_key_first_max [OF ne] obtain K pre post where
    res: "aggregate_key key_scores = (K, py_round (min 1 (max 0 (slot_total key_scores K))) 2)"
    and K_in: "K \<in> fst ` set key_scores"
    and max: "\<forall>k\<in>fst ` set key_scores. slot_total key_scores k \<le> slot_total key_scores K"
    and split: "map fst key_scores = pre @ K # post"
    and first: "\<forall>k\<in>set pre. slot_total key_scores k < slot_total key_scores K"
    by blast
  have K: "fst (aggregate_key key_scores) = K"
    by (simp add: res)
  have "set post \<subseteq> fst ` set key_scores"
  proof -
    have "set post \<subseteq> set (map fst key_scores)"
      unfolding split by auto
    then show ?thesis by simp
  qed
  with max have post: "\<forall>k\<in>set post. slot_total key_scores k \<le> slot_total key_scores K"
    by blast
  have part1: "\<exists>pre post. map fst key_scores = pre @ K # post \<and>
      (\<forall>k\<in>set pre. slot_total key_scores k < slot_total key_scores K) \<and>
      (\<forall>k\<in>set post. slot_total key_scores k \<le> slot_total key_scores K)"
    using split first post by blast
  have part2: "\<exists>i\<le>j. K = slot_labels ! i"
    if order: "map fst key_scores = slot_labels @ rest" and j: "j < 24"
      and tie: "slot_total key_scores (slot_labels ! j) = slot_total key_scores K"
    for rest j
  proof -
    have "length pre \<le> j"
    proof (rule ccontr)
      assume "\<not> length pre \<le> j"
      then have lt: "j < length pre" by simp
      have "(pre @ K # post) ! j = (slot_labels @ rest) ! j"
        using split order by simp
      with lt j have "pre ! j = slot_labels ! j"
        by (simp add: nth_append length_slot_labels)
      with lt have "slot_labels ! j \<in> set pre"
        by (metis nth_mem)
      with first tie show False
        by auto
    qed
    moreover have "K = slot_labels ! length pre"
    proof -
      have "(pre @ K # post) ! length pre = (slot_labels @ rest) ! length pre"
        using split order by simp
      with \<open>length pre \<le> j\<close> j show ?thesis
        by (simp add: nth_append length_slot_labels)
    qed
    ultimately show ?thesis by blast
  qed
  show ?thesis
    unfolding K using part1 part2 by blast
qed

lemma tie_example_key:
  "aggregate_key [(''D major'', 1 / 4), (''C major'', 1 / 2), (''D major'', 1 / 4)]
     = (''D major'', 1 / 2)"
  by (simp add: aggregate_key_def aggregate_scores_def py_round_def Let_def)

theorem key_tie_break_first_inserted_witness:
  "aggregate_key [(''D major'', 1 / 4), (''C major'', 1 / 2), (''D major'', 1 / 4)]
     = (''D major'', 1 / 2) \<and>
   slot_total [(''D major'', 1 / 4), (''C major'', 1 / 2), (''D major'', 1 / 4)] ''C major''
     = slot_total [(''D major'', 1 / 4), (''C major'', 1 / 2), (''D major'', 1 / 4)] ''D major'' \<and>
   (\<exists>pre post.
      map fst [(''D major'', 1 / 4 :: real), (''C major'', 1 / 2), (''D major'', 1 / 4)]
        = pre @ ''D major'' # post \<and>
      (\<forall>k\<in>set pre.
         slot_total [(''D major'', 1 / 4), (''C major'', 1 / 2), (''D major'', 1 / 4)] k
           < slot_total [(''D major'', 1 / 4), (''C major'', 1 / 2), (''D major'', 1 / 4)]
               ''D major'') \<and>
      (\<forall>k\<in>set post.
         slot_total [(''D major'', 1 / 4), (''C major'', 1 / 2), (''D major'', 1 / 4)] k
           \<le> slot_total [(''D major'', 1 / 4), (''C major'', 1 / 2), (''D major'', 1 / 4)]
               ''D major''))"
proof -
  let ?ks = "[(''D major'', 1 / 4), (''C major'', 1 / 2), (''D major'', 1 / 4)] :: key_candidate list"
  have ne: "?ks \<noteq> []"
    by simp
  have t: "slot_total ?ks ''C major'' = slot_total ?ks ''D major''"
    by (simp add: slot_total_def)
  from key_tie_break_first_inserted [OF ne] have
    "\<exists>pre post.
       map fst ?ks = pre @ fst (aggregate_key ?ks) # post \<and>
       (\<forall>k\<in>set pre. slot_total ?ks k < slot_total ?ks (fst (aggregate_key ?ks))) \<and>
       (\<forall>k\<in>set post. slot_total ?ks k \<le> slot_total ?ks (fst (aggregate_key ?ks)))"
    by (rule conjunct1)
  then show ?thesis
    unfolding tie_example_key fst_conv using t tie_example_key by blast
qed

text \<open>
  Claim C3 as stated fails on lists in another order: with D major and C major tied and
  D major first, D major is selected; with G minor and G major tied and G minor first,
  G minor is selected.
\<close>

theorem key_tie_break_counterexample:
  "slot_total [(''D major'', 1 / 2), (''C major'', 1 / 2)] ''C major''
     = slot_total [(''D major'', 1 / 2), (''C major'', 1 / 2)] ''D major'' \<and>
   fst (aggregate_key [(''D major'', 1 / 2), (''C major'', 1 / 2)]) = ''D major'' \<and>
   slot_total [(''G minor'', 3 / 10), (''G major'', 3 / 10)] ''G major''
     = slot_total [(''G minor'', 3 / 10), (''G major'', 3 / 10)] ''G minor'' \<and>
   fst (aggregate_key [(''G minor'', 3 / 10), (''G major'', 3 / 10)]) = ''G minor''"
  by (simp add: aggregate_key_def aggregate_scores_def py_round_def slot_total_def Let_def)

section \<open>Order of the candidates\<close>









section \<open>Ranges of the confidences\<close>

lemma py_round_unit:
  assumes "0 \<le> x" "x \<le> 1"
  shows "0 \<le> py_round x 2 \<and> py_round x 2 \<le> 1"
proof -
  define y where "y = x * 100"
  define f where "f = \<lfloor>y\<rfloor>"
  define q where "q = (if y - of_int f < 1 / 2 then f else if 1 / 2 < y - of_int f then f + 1
               else if even f then f else f + 1)"
  have r: "py_round x 2 = of_int q / 100"
    by (simp add: py_round_def Let_def y_def f_def q_def)
  have y: "0 \<le> y" "y \<le> 100"
    using assms by (simp_all add: y_def)
  have f0: "0 \<le> f"
    using y by (simp add: f_def)
  have q0: "0 \<le> q"
    using f0 by (simp add: q_def)
  have "q \<le> 100"
  proof (cases "y - of_int f < 1 / 2")
    case True
    then have "q = f" by (simp add: q_def)
    moreover have "f \<le> 100"
      using y by (simp add: f_def floor_le_iff)
    ultimately show ?thesis by simp
  next
    case False
    then have "of_int f < y" by simp
    with y have "of_int f < (100 :: real)" by simp
    then have "f < 100" by simp
    moreover have "q \<le> f + 1" by (simp add: q_def)
    ultimately show ?thesis by simp
  qed
  with q0 show ?thesis
    by (simp add: r)
qed

lemma sum_list_unit_bounds:
  "\<forall>x\<in>set xs. 0 \<le> x \<and> x \<le> (1 :: real) \<Longrightarrow>
     0 \<le> sum_list xs \<and> sum_list xs \<le> real (length xs)"
  by (induction xs) auto

lemma np_mean_unit:
  assumes "\<forall>x\<in>set xs. 0 \<le> x \<and> x \<le> 1"
  shows "0 \<le> np_mean xs \<and> np_mean xs \<le> 1"
proof (cases "xs = []")
  case True
  then show ?thesis by (simp add: np_mean_def)
next
  case False
  then have "0 < real (length xs)" by simp
  with sum_list_unit_bounds [OF assms] show ?thesis
    by (simp add: np_mean_def divide_le_eq)
qed

lemma set_remove_outliers: "set (remove_outliers cs) \<subseteq> set cs"
  by (auto simp: remove_outliers_def)

lemma weighted_result_unit:
  assumes "\<forall>c\<in>set kept. 0 \<le> snd c \<and> snd c \<le> 1"
  shows "0 \<le> snd (weighted_result kept) \<and> snd (weighted_result kept) \<le> 1"
proof -
  have "\<forall>x\<in>set (map snd kept). 0 \<le> x \<and> x \<le> 1"
    using assms by simp
  from np_mean_unit [OF this] py_round_unit [of "np_mean (map snd kept)"] show ?thesis
    by (simp add: weighted_result_def Let_def)
qed

lemma aggregate_tempo_unit:
  assumes "\<forall>c\<in>set cs. 0 \<le> snd c \<and> snd c \<le> 1"
  shows "0 \<le> snd (aggregate_tempo cs) \<and> snd (aggregate_tempo cs) \<le> 1"
proof -
  have "\<forall>c\<in>set (remove_outliers cs). 0 \<le> snd c \<and> snd c \<le> 1"
    using assms set_remove_outliers [of cs] by blast
  from weighted_result_unit [OF this] show ?thesis
    by (simp add: aggregate_tempo_def Let_def)
qed

lemma tempo_candidate_weights:
  "c \<in> set (tempo_candidates P y sr) \<Longrightarrow>
     snd c \<in> {6 / 10, 65 / 100, 7 / 10, 75 / 100, 8 / 10}"
  by (auto simp: tempo_candidates_def beat_track_candidates_def onset_candidates_def
      essentia_candidates_def autocorr_candidates_def dynamic_candidates_def Let_def
      split: option.splits if_splits list.splits)

lemma sum_list_pos_weights:
  "kept \<noteq> [] \<Longrightarrow> \<forall>c\<in>set kept. 0 < snd c \<Longrightarrow> 0 < sum_list (map snd kept :: real list)"
proof (induction kept)
  case Nil
  then show ?case by simp
next
  case (Cons c kept)
  have "0 \<le> sum_list (map snd kept)"
    using Cons.prems(2) by (intro sum_list_nonneg) (auto simp: less_imp_le)
  moreover have "0 < snd c"
    using Cons.prems(2) by simp
  ultimately show ?case by simp
qed

lemma aggregate_key_unit: "0 \<le> snd (aggregate_key ks) \<and> snd (aggregate_key ks) \<le> 1"
proof (cases "ks = []")
  case True
  then show ?thesis by (simp add: aggregate_key_def)
next
  case False
  from aggregate_key_first_max [OF False] obtain K pre post where
    "aggregate_key ks = (K, py_round (min 1 (max 0 (slot_total ks K))) 2)"
    "K \<in> fst ` set ks"
    "\<forall>k\<in>fst ` set ks. slot_total ks k \<le> slot_total ks K"
    "map fst ks = pre @ K # post"
    "\<forall>k\<in>set pre. slot_total ks k < slot_total ks K"
    by blast
  with py_round_unit [of "min 1 (max 0 (slot_total ks K))"] show ?thesis
    by simp
qed

lemma aggregate_key_confidence:
  assumes "ks \<noteq> []"
  shows "snd (aggregate_key ks) =
           py_round (min 1 (max 0 (Max (slot_total ks ` fst ` set ks)))) 2"
proof -
  from aggregate_key_first_max [OF assms] obtain K pre post where
    res: "aggregate_key ks = (K, py_round (min 1 (max 0 (slot_total ks K))) 2)"
    and K_in: "K \<in> fst ` set ks"
    and max: "\<forall>k\<in>fst ` set ks. slot_total ks k \<le> slot_total ks K"
    and "map fst ks = pre @ K # post"
    and "\<forall>k\<in>set pre. slot_total ks k < slot_total ks K"
    by blast
  have "Max (slot_total ks ` fst ` set ks) = slot_total ks K"
  proof (rule Max_eqI)
    show "finite (slot_total ks ` fst ` set ks)" by simp
    show "slot_total ks K \<in> slot_total ks ` fst ` set ks"
      using K_in by (rule imageI)
    fix v assume "v \<in> slot_total ks ` fst ` set ks"
    then obtain k where "k \<in> fst ` set ks" "v = slot_total ks k" by blast
    with max show "v \<le> slot_total ks K" by blast
  qed
  then show ?thesis
    by (simp add: res)
qed

lemma tempo_candidates_unit:
  "\<forall>c\<in>set (tempo_candidates P y sr). 0 \<le> snd c \<and> snd c \<le> 1"
proof
  fix c assume "c \<in> set (tempo_candidates P y sr)"
  from tempo_candidate_weights [OF this] show "0 \<le> snd c \<and> snd c \<le> 1"
    by auto
qed

lemma advanced_bpm_confidence:
  "snd (advanced_bpm_detection P y sr) =
     (if remove_outliers (tempo_candidates P y sr) = [] then 0
      else py_round (np_mean (map snd (remove_outliers (tempo_candidates P y sr)))) 2)"
proof (cases "remove_outliers (tempo_candidates P y sr) = []")
  case True
  then show ?thesis
    by (simp add: advanced_bpm_detection_def aggregate_tempo_def)
next
  case False
  have "\<forall>c\<in>set (remove_outliers (tempo_candidates P y sr)). 0 < snd c"
  proof
    fix c assume "c \<in> set (remove_outliers (tempo_candidates P y sr))"
    with set_remove_outliers have "c \<in> set (tempo_candidates P y sr)"
      by blast
    from tempo_candidate_weights [OF this] show "0 < snd c"
      by auto
  qed
  from sum_list_pos_weights [OF False this]
  have pos: "sum_list (map snd (remove_outliers (tempo_candidates P y sr))) \<noteq> 0"
    by simp
  have "tempo_candidates P y sr \<noteq> []"
    using False by (auto simp: remove_outliers_def)
  with False pos show ?thesis
    by (simp add: advanced_bpm_detection_def aggregate_tempo_def weighted_result_def Let_def)
qed

lemma advanced_key_unit:
  "0 \<le> snd (advanced_key_detection P y sr) \<and> snd (advanced_key_detection P y sr) \<le> 1"
  using aggregate_key_unit by (simp add: advanced_key_detection_def split: option.splits)

lemma advanced_bpm_unit:
  "0 \<le> snd (advanced_bpm_detection P y sr) \<and> snd (advanced_bpm_detection P y sr) \<le> 1"
  unfolding advanced_bpm_detection_def
  using tempo_candidates_unit by (rule aggregate_tempo_unit)

lemma analyze_body_confidences:
  "load P path = Inr (y, sr) \<Longrightarrow> analyze_body P path = Inr r \<Longrightarrow>
     bpm_confidence r =
       (if fst (advanced_bpm_detection P y sr) = None \<or> fst (advanced_bpm_detection P y sr) = Some 0
        then 0 else snd (advanced_bpm_detection P y sr)) \<and>
     key_confidence r = snd (advanced_key_detection P y sr)"
  by (auto simp: analyze_body_def try_bind_Inr_iff Let_def case_prod_beta)

lemma analyze_confidences_unit:
  "0 \<le> bpm_confidence (analyze_audio_features P path) \<and>
   bpm_confidence (analyze_audio_features P path) \<le> 1 \<and>
   0 \<le> key_confidence (analyze_audio_features P path) \<and>
   key_confidence (analyze_audio_features P path) \<le> 1"
proof (cases "analyze_body P path")
  case (Inl e)
  then show ?thesis
    by (simp add: analyze_audio_features_def failure_result_def)
next
  case (Inr r)
  then obtain y sr where l: "load P path = Inr (y, sr)"
    by (cases "load P path") (auto simp: analyze_body_def)
  from analyze_body_confidences [OF l Inr]
    advanced_bpm_unit [of P y sr] advanced_key_unit [of P y sr] Inr show ?thesis
    by (simp add: analyze_audio_features_def)
qed

lemma advanced_key_confidence:
  "snd (advanced_key_detection P y sr) =
     (case key_candidates P y sr of
        None \<Rightarrow> 0
      | Some key_scores \<Rightarrow>
          if key_scores = [] then 0
          else py_round (min 1 (max 0
                 (Max (slot_total key_scores ` fst ` set key_scores)))) 2)"
proof (cases "key_candidates P y sr")
  case None
  then show ?thesis
    by (simp add: advanced_key_detection_def)
next
  case (Some key_scores)
  show ?thesis
  proof (cases "key_scores = []")
    case True
    with Some show ?thesis
      by (simp add: advanced_key_detection_def aggregate_key_def)
  next
    case False
    from aggregate_key_confidence [OF False] Some False show ?thesis
      by (simp add: advanced_key_detection_def)
  qed
qed

lemma analyze_success_confidences:
  assumes l: "load P path = Inr (y, sr)"
    and s: "analysis_success (analyze_audio_features P path)"
  shows "bpm_confidence (analyze_audio_features P path) =
       (if fst (advanced_bpm_detection P y sr) = None \<or> fst (advanced_bpm_detection P y sr) = Some 0
        then 0 else snd (advanced_bpm_detection P y sr)) \<and>
     key_confidence (analyze_audio_features P path) = snd (advanced_key_detection P y sr)"
proof (cases "analyze_body P path")
  case (Inl e)
  with s show ?thesis
    by (simp add: analyze_audio_features_def failure_result_def)
next
  case (Inr r)
  from analyze_body_confidences [OF l Inr] Inr show ?thesis
    by (simp add: analyze_audio_features_def)
qed

text \<open>
  Claim C9. Both confidences lie in \<open>[0, 1]\<close> for every provider and input, at the
  detection functions and in the analysis result. Every strategy weight is one of 0.6,
  0.65, 0.7, 0.75 and 0.8, and the tempo confidence returned by the detection is the mean
  of the surviving weights rounded to two decimals (zero when nothing survives). The key
  confidence returned by the detection is the best accumulated score of the candidates of
  that input, clamped to \<open>[0, 1]\<close> and rounded to two decimals (zero when there is no
  candidate or the chromagrams fail); the same equation holds for the aggregator on any
  candidate list. A successful analysis reports the key confidence of the detection, and
  its tempo confidence unless the tempo is null or zero.
\<close>

theorem confidences_in_unit_interval:
  "0 \<le> snd (advanced_bpm_detection P y sr) \<and> snd (advanced_bpm_detection P y sr) \<le> 1 \<and>
   0 \<le> snd (advanced_key_detection P y sr) \<and> snd (advanced_key_detection P y sr) \<le> 1 \<and>
   0 \<le> bpm_confidence (analyze_audio_features P path) \<and>
   bpm_confidence (analyze_audio_features P path) \<le> 1 \<and>
   0 \<le> key_confidence (analyze_audio_features P path) \<and>
   key_confidence (analyze_audio_features P path) \<le> 1 \<and>
   (\<forall>c\<in>set (tempo_candidates P y sr). snd c \<in> {6 / 10, 65 / 100, 7 / 10, 75 / 100, 8 / 10}) \<and>
   snd (advanced_bpm_detection P y sr) =
     (if remove_outliers (tempo_candidates P y sr) = [] then 0
      else py_round (np_mean (map snd (remove_outliers (tempo_candidates P y sr)))) 2) \<and>
   (ks \<noteq> [] \<longrightarrow>
      snd (aggregate_key ks) = py_round (min 1 (max 0 (Max (slot_total ks ` fst ` set ks)))) 2) \<and>
   0 \<le> snd (aggregate_key ks) \<and> snd (aggregate_key ks) \<le> 1 \<and>
   snd (advanced_key_detection P y sr) =
     (case key_candidates P y sr of
        None \<Rightarrow> 0
      | Some key_scores \<Rightarrow>
          if key_scores = [] then 0
          else py_round (min 1 (max 0
                 (Max (slot_total key_scores ` fst ` set key_scores)))) 2) \<and>
   (load P path = Inr (y, sr) \<and> analysis_success (analyze_audio_features P path) \<longrightarrow>
      bpm_confidence (analyze_audio_features P path) =
        (if fst (advanced_bpm_detection P y sr) = None \<or>
            fst (advanced_bpm_detection P y sr) = Some 0
         then 0 else snd (advanced_bpm_detection P y sr)) \<and>
      key_confidence (analyze_audio_features P path) = snd (advanced_key_detection P y sr))"
  using advanced_bpm_unit [of P y sr] advanced_key_unit [of P y sr]
    analyze_confidences_unit [of P path] tempo_candidate_weights [of _ P y sr]
    advanced_bpm_confidence [of P y sr] aggregate_key_confidence [of ks]
    aggregate_key_unit [of ks] advanced_key_confidence [of P y sr]
    analyze_success_confidences [of P path y sr]
  by blast

lemma steady_tempo_candidates:
  "tempo_candidates steady_provider y sr = [(120, 7 / 10), (120, 7 / 10), (120, 7 / 10)]"
  by (simp add: tempo_candidates_def beat_track_candidates_def onset_candidates_def
      essentia_candidates_def autocorr_candidates_def dynamic_candidates_def
      steady_provider_def silent_provider_def hop_lengths_def)

lemma steady_remove_outliers:
  "remove_outliers [(120, 7 / 10), (120, 7 / 10), (120, 7 / 10)]
     = [(120, 7 / 10), (120, 7 / 10), (120, 7 / 10)]"
  by (simp add: remove_outliers_def valid_mask_iff np_median_def np_var_def np_mean_def)

lemma steady_key_candidates:
  "key_candidates steady_provider y sr = Some [(''A minor'', 4 / 10)]"
  by (simp add: key_candidates_def steady_provider_def silent_provider_def shape_ok_def
      chroma_weights_def silent_chroma profile_scores_NaN extractor_scores_def
      harmonic_scores_def Let_def)

lemma steady_bpm_value:
  "fst (advanced_bpm_detection steady_provider [0, 0, 0, 0] 4) = Some 120"
  by (simp add: advanced_bpm_detection_def steady_tempo_candidates aggregate_tempo_def
      steady_remove_outliers weighted_result_def np_average_def octave_correction_def
      py_round_def Let_def)

lemma steady_analysis_success:
  "load steady_provider ''a.wav'' = Inr ([0, 0, 0, 0], 4) \<and>
   analysis_success (analyze_audio_features steady_provider ''a.wav'')"
  by (simp add: analyze_audio_features_def analyze_body_def steady_provider_def
      silent_provider_def Let_def case_prod_beta)

theorem confidences_in_unit_interval_witness:
  "snd (advanced_bpm_detection steady_provider [0, 0, 0, 0] 4) = 7 / 10 \<and>
   snd (advanced_key_detection steady_provider [0, 0, 0, 0] 4) = 4 / 10 \<and>
   bpm_confidence (analyze_audio_features steady_provider ''a.wav'') = 7 / 10 \<and>
   key_confidence (analyze_audio_features steady_provider ''a.wav'') = 4 / 10 \<and>
   snd (aggregate_key [(''C major'', 13 / 10)]) = 1"
proof -
  let ?P = "steady_provider"
  let ?ks = "[(''C major'', 13 / 10)] :: key_candidate list"
  note t = confidences_in_unit_interval [of ?P "[0, 0, 0, 0]" 4 "''a.wav''" ?ks]
  from t have "snd (advanced_bpm_detection ?P [0, 0, 0, 0] 4) =
     (if remove_outliers (tempo_candidates ?P [0, 0, 0, 0] 4) = [] then 0
      else py_round (np_mean (map snd (remove_outliers (tempo_candidates ?P [0, 0, 0, 0] 4)))) 2)"
    by blast
  then have a: "snd (advanced_bpm_detection ?P [0, 0, 0, 0] 4) = 7 / 10"
    unfolding steady_tempo_candidates steady_remove_outliers
    by (simp add: np_mean_def py_round_def Let_def)
  from t have "snd (advanced_key_detection ?P [0, 0, 0, 0] 4) =
     (case key_candidates ?P [0, 0, 0, 0] 4 of
        None \<Rightarrow> 0
      | Some key_scores \<Rightarrow>
          if key_scores = [] then 0
          else py_round (min 1 (max 0
                 (Max (slot_total key_scores ` fst ` set key_scores)))) 2)"
    by blast
  then have k: "snd (advanced_key_detection ?P [0, 0, 0, 0] 4) = 4 / 10"
    unfolding steady_key_candidates
    by (simp add: slot_total_def py_round_def Let_def)
  from t steady_analysis_success
  have s: "bpm_confidence (analyze_audio_features ?P ''a.wav'') =
        (if fst (advanced_bpm_detection ?P [0, 0, 0, 0] 4) = None \<or>
            fst (advanced_bpm_detection ?P [0, 0, 0, 0] 4) = Some 0
         then 0 else snd (advanced_bpm_detection ?P [0, 0, 0, 0] 4)) \<and>
      key_confidence (analyze_audio_features ?P ''a.wav'') =
        snd (advanced_key_detection ?P [0, 0, 0, 0] 4)"
    by blast
  from s have kc: "key_confidence (analyze_audio_features ?P ''a.wav'') = 4 / 10"
    by (simp only: k)
  from s have bc: "bpm_confidence (analyze_audio_features ?P ''a.wav'') = 7 / 10"
    unfolding steady_bpm_value a by simp
  have "?ks \<noteq> []" by simp
  with t have "snd (aggregate_key ?ks) =
      py_round (min 1 (max 0 (Max (slot_total ?ks ` fst ` set ?ks)))) 2"
    by blast
  then have b: "snd (aggregate_key ?ks) = 1"
    by (simp add: slot_total_def py_round_def Let_def)
  from a k bc kc b show ?thesis by (intro conjI)
qed

section \<open>Rotated key profiles\<close>

lemma np_roll_drop_take:
  "np_roll xs i = drop ((length xs - i mod length xs) mod length xs) xs
                  @ take ((length xs - i mod length xs) mod length xs) xs"
  by (simp add: np_roll_def rotate_drop_take)

lemma length_np_roll: "length (np_roll xs i) = length xs"
  by (simp add: np_roll_def)

lemma mset_rotate: "mset (rotate n xs) = mset xs"
proof -
  have "mset (drop (n mod length xs) xs @ take (n mod length xs) xs) =
        mset (take (n mod length xs) xs @ drop (n mod length xs) xs)"
    by (simp only: mset_append add.commute)
  then show ?thesis
    by (simp add: rotate_drop_take)
qed

lemma sum_list_rotate: "sum_list (rotate n xs) = (sum_list xs :: real)"
  using mset_rotate [of n xs] by (metis sum_mset_sum_list)

lemma zip_rotate:
  assumes "length a = length b"
  shows "zip (rotate n a) (rotate n b) = rotate n (zip a b)"
proof -
  let ?k = "n mod length a"
  have "zip (drop ?k a @ take ?k a) (drop ?k b @ take ?k b) =
        zip (drop ?k a) (drop ?k b) @ zip (take ?k a) (take ?k b)"
    using assms by (intro zip_append) simp
  also have "\<dots> = drop ?k (zip a b) @ take ?k (zip a b)"
    by (simp add: drop_zip take_zip)
  finally show ?thesis
    using assms by (simp add: rotate_drop_take)
qed

lemma np_mean_np_roll: "np_mean (np_roll xs i) = np_mean xs"
  by (simp add: np_mean_def np_roll_def sum_list_rotate)

lemma np_cov_np_roll:
  assumes "length a = length b"
  shows "np_cov (np_roll a k) (np_roll b k) = np_cov a b"
proof -
  let ?f = "\<lambda>(x, y). (x - np_mean a) * (y - np_mean b)"
  let ?n = "length a - k mod length a"
  have "zip (np_roll a k) (np_roll b k) = rotate ?n (zip a b)"
    using assms zip_rotate [OF assms, of ?n] by (simp add: np_roll_def)
  then have "sum_list (map ?f (zip (np_roll a k) (np_roll b k))) = sum_list (map ?f (zip a b))"
    by (simp add: rotate_map [symmetric] sum_list_rotate)
  then show ?thesis
    by (simp add: np_cov_def np_mean_np_roll length_np_roll)
qed

lemma np_roll_np_roll_12:
  assumes len: "length xs = 12" and d: "d < 12" and k: "k < 12"
  shows "np_roll (np_roll xs d) k = np_roll xs ((d + k) mod 12)"
proof -
  have l: "np_roll (np_roll xs d) k = rotate ((12 - k) + (12 - d)) xs"
    using len d k by (simp add: np_roll_def rotate_rotate)
  show ?thesis
  proof (cases "d + k < 12")
    case True
    then have "(12 - k) + (12 - d) = (12 - (d + k)) + 12"
      by simp
    then have "rotate ((12 - k) + (12 - d)) xs = rotate (12 - (d + k)) (rotate 12 xs)"
      by (simp only: rotate_rotate)
    also have "rotate 12 xs = xs"
      using len by simp
    finally show ?thesis
      using True len l by (simp add: np_roll_def)
  next
    case False
    then have m: "(d + k) mod 12 = d + k - 12"
      using d k by (simp add: mod_if)
    have "(12 - k) + (12 - d) = 12 - (d + k - 12)"
      using False d k by simp
    then show ?thesis
      using len l m d k by (simp add: np_roll_def)
  qed
qed

lemma np_cov_rolls_12:
  assumes "length a = 12" "length b = 12" "k < 12" "i < 12"
  shows "np_cov (np_roll a k) (np_roll b i) = np_cov a (np_roll b ((i + 12 - k) mod 12))"
proof -
  define d where "d = (i + 12 - k) mod 12"
  have d: "d < 12"
    by (simp add: d_def)
  have "d = (if k \<le> i then i - k else i + 12 - k)"
    using assms(3,4) by (simp add: d_def mod_if)
  then have "(d + k) mod 12 = i"
    using assms(3,4) by (simp add: mod_if split: if_splits)
  then have "np_roll b i = np_roll (np_roll b d) k"
    using np_roll_np_roll_12 [OF assms(2) d assms(3)] by simp
  moreover have "length a = length (np_roll b d)"
    using assms by (simp add: length_np_roll)
  ultimately show ?thesis
    using np_cov_np_roll unfolding d_def by simp
qed

lemma np_cov_roll_self:
  "np_cov (np_roll a k) (np_roll a k) = np_cov a a"
  by (rule np_cov_np_roll) simp

lemma major_profile_explicit:
  "major_profile =
     [635 / 4179, 223 / 4179, 348 / 4179, 233 / 4179, 438 / 4179, 409 / 4179,
      252 / 4179, 519 / 4179, 239 / 4179, 366 / 4179, 229 / 4179, 288 / 4179]"
  by (simp add: major_profile_def major_profile_raw_def sum_normalize_def)

lemma minor_profile_explicit:
  "minor_profile =
     [633 / 4451, 268 / 4451, 352 / 4451, 538 / 4451, 260 / 4451, 353 / 4451,
      254 / 4451, 475 / 4451, 398 / 4451, 269 / 4451, 334 / 4451, 317 / 4451]"
  by (simp add: minor_profile_def minor_profile_raw_def sum_normalize_def)

lemma length_profiles: "length major_profile = 12" "length minor_profile = 12"
  by (simp_all add: major_profile_explicit minor_profile_explicit)

lemma sum_major_profile: "sum_list major_profile = 1"
  by (simp add: major_profile_explicit)

lemma var_major_profile: "np_cov major_profile major_profile = 36469 / 36591324"
  by (simp add: major_profile_explicit np_cov_def np_mean_def)

lemma var_minor_profile: "np_cov minor_profile minor_profile = 1920851 / 2615104932"
  by (simp add: minor_profile_explicit np_cov_def np_mean_def)

lemma less_12_cases:
  "d < 12 \<Longrightarrow> d = 0 \<or> d = 1 \<or> d = 2 \<or> d = 3 \<or> d = 4 \<or> d = 5 \<or> d = 6 \<or> d = 7 \<or>
     d = 8 \<or> d = 9 \<or> d = 10 \<or> d = (11 :: nat)"
  by arith

lemma cov_major_major:
  "d < 12 \<Longrightarrow> d \<noteq> 0 \<Longrightarrow>
     (np_cov major_profile (np_roll major_profile d))\<^sup>2 < (36469 / 36591324) * (36469 / 36591324)"
  by (drule less_12_cases, elim disjE)
     (simp_all add: major_profile_explicit np_roll_drop_take np_cov_def np_mean_def
        power2_eq_square)

lemma cov_major_minor:
  "d < 12 \<Longrightarrow>
     (np_cov major_profile (np_roll minor_profile d))\<^sup>2
       < (36469 / 36591324) * (1920851 / 2615104932)"
  by (drule less_12_cases, elim disjE)
     (simp_all add: major_profile_explicit minor_profile_explicit np_roll_drop_take np_cov_def
        np_mean_def power2_eq_square)

lemma np_corrcoef_self:
  assumes "0 < np_cov a a"
  shows "np_corrcoef a a = Some 1"
proof -
  have "np_cov a a / sqrt (np_cov a a) / sqrt (np_cov a a) = 1"
    using assms by (simp add: divide_divide_eq_left)
  with assms show ?thesis
    by (simp add: np_corrcoef_def)
qed

lemma np_corrcoef_less_1:
  assumes a: "0 < np_cov a a" and b: "0 < np_cov b b"
    and lt: "(np_cov a b)\<^sup>2 < np_cov a a * np_cov b b"
  shows "\<exists>c. np_corrcoef a b = Some c \<and> c < 1"
proof -
  have "np_cov a b < sqrt (np_cov a a * np_cov b b)"
    using lt by (rule real_less_rsqrt)
  then have "np_cov a b < sqrt (np_cov a a) * sqrt (np_cov b b)"
    by (simp add: real_sqrt_mult)
  then have "np_cov a b / sqrt (np_cov a a) / sqrt (np_cov b b) < 1"
    using a b by (simp add: divide_divide_eq_left)
  then have "max (- 1) (min 1 (np_cov a b / sqrt (np_cov a a) / sqrt (np_cov b b))) < 1"
    by simp
  with a b show ?thesis
    by (simp add: np_corrcoef_def)
qed

lemma corr_rolled_major_major:
  assumes k: "k < 12" and i: "i < 12"
  shows "\<exists>c. np_corrcoef (np_roll major_profile k) (np_roll major_profile i) = Some c \<and>
             (if i = k then c = 1 else c < 1)"
proof (cases "i = k")
  case True
  have "0 < np_cov (np_roll major_profile k) (np_roll major_profile k)"
    by (simp add: np_cov_roll_self var_major_profile)
  from np_corrcoef_self [OF this] True show ?thesis
    by simp
next
  case False
  define d where "d = (i + 12 - k) mod 12"
  have "d = (if k \<le> i then i - k else i + 12 - k)"
    using k i by (simp add: d_def mod_if)
  then have d: "d < 12" "d \<noteq> 0"
    using k i False by (simp_all split: if_splits)
  have c: "np_cov (np_roll major_profile k) (np_roll major_profile i)
             = np_cov major_profile (np_roll major_profile d)"
    unfolding d_def using length_profiles(1) length_profiles(1) k i by (rule np_cov_rolls_12)
  have "\<exists>c. np_corrcoef (np_roll major_profile k) (np_roll major_profile i) = Some c \<and> c < 1"
  proof (rule np_corrcoef_less_1)
    show "0 < np_cov (np_roll major_profile k) (np_roll major_profile k)"
      by (simp add: np_cov_roll_self var_major_profile)
    show "0 < np_cov (np_roll major_profile i) (np_roll major_profile i)"
      by (simp add: np_cov_roll_self var_major_profile)
    show "(np_cov (np_roll major_profile k) (np_roll major_profile i))\<^sup>2
            < np_cov (np_roll major_profile k) (np_roll major_profile k)
              * np_cov (np_roll major_profile i) (np_roll major_profile i)"
      unfolding c np_cov_roll_self var_major_profile using d by (rule cov_major_major)
  qed
  with False show ?thesis by simp
qed

lemma corr_rolled_major_minor:
  assumes k: "k < 12" and i: "i < 12"
  shows "\<exists>c. np_corrcoef (np_roll major_profile k) (np_roll minor_profile i) = Some c \<and> c < 1"
proof -
  define d where "d = (i + 12 - k) mod 12"
  have d: "d < 12"
    by (simp add: d_def)
  have c: "np_cov (np_roll major_profile k) (np_roll minor_profile i)
             = np_cov major_profile (np_roll minor_profile d)"
    unfolding d_def using length_profiles(1) length_profiles(2) k i by (rule np_cov_rolls_12)
  show ?thesis
  proof (rule np_corrcoef_less_1)
    show "0 < np_cov (np_roll major_profile k) (np_roll major_profile k)"
      by (simp add: np_cov_roll_self var_major_profile)
    show "0 < np_cov (np_roll minor_profile i) (np_roll minor_profile i)"
      by (simp add: np_cov_roll_self var_minor_profile)
    show "(np_cov (np_roll major_profile k) (np_roll minor_profile i))\<^sup>2
            < np_cov (np_roll major_profile k) (np_roll major_profile k)
              * np_cov (np_roll minor_profile i) (np_roll minor_profile i)"
      unfolding c np_cov_roll_self var_major_profile var_minor_profile
      using d by (rule cov_major_minor)
  qed
qed

lemma pitch_names_inj:
  "i < 12 \<Longrightarrow> j < 12 \<Longrightarrow> pitch_names ! i = pitch_names ! j \<longleftrightarrow> i = j"
proof -
  have "distinct pitch_names" "length pitch_names = 12"
    by (simp_all add: pitch_names_def)
  then show "i < 12 \<Longrightarrow> j < 12 \<Longrightarrow> pitch_names ! i = pitch_names ! j \<longleftrightarrow> i = j"
    by (simp add: nth_eq_iff_index_eq)
qed

lemma slot_total_concat:
  "slot_total (concat xss) L = sum_list (map (\<lambda>xs. slot_total xs L) xss)"
  by (induction xss) (simp_all add: slot_total_Nil slot_total_append)

lemma sum_list_delta:
  "distinct xs \<Longrightarrow> j \<in> set xs \<Longrightarrow>
     sum_list (map (\<lambda>i. if i = j then c else 0) xs) = (c :: real)"
proof (induction xs)
  case Nil
  then show ?case by simp
next
  case (Cons x xs)
  show ?case
  proof (cases "x = j")
    case True
    with Cons.prems have "j \<notin> set xs" by simp
    then have "sum_list (map (\<lambda>i. if i = j then c else 0) xs) = 0"
      by (induction xs) auto
    with True show ?thesis by simp
  next
    case False
    with Cons show ?thesis by simp
  qed
qed

lemma slot_total_score_table_major:
  assumes j: "j < 12"
  shows "slot_total (score_table cmaj cmin w) (pitch_names ! j @ '' major'') = cmaj j * w"
proof -
  have "map (\<lambda>xs. slot_total xs (pitch_names ! j @ '' major''))
          (map (\<lambda>i. [(pitch_names ! i @ '' major'', cmaj i * w),
                       (pitch_names ! i @ '' minor'', cmin i * w)]) [0..<12])
        = map (\<lambda>i. if i = j then cmaj j * w else 0) [0..<12]"
    using j by (auto simp: slot_total_Cons slot_total_Nil pitch_names_inj)
  then have "slot_total (score_table cmaj cmin w) (pitch_names ! j @ '' major'')
               = sum_list (map (\<lambda>i. if i = j then cmaj j * w else 0) [0..<12])"
    by (simp only: score_table_def slot_total_concat)
  also have "\<dots> = cmaj j * w"
    using j by (intro sum_list_delta) simp_all
  finally show ?thesis .
qed

lemma slot_total_score_table_minor:
  assumes j: "j < 12"
  shows "slot_total (score_table cmaj cmin w) (pitch_names ! j @ '' minor'') = cmin j * w"
proof -
  have "map (\<lambda>xs. slot_total xs (pitch_names ! j @ '' minor''))
          (map (\<lambda>i. [(pitch_names ! i @ '' major'', cmaj i * w),
                       (pitch_names ! i @ '' minor'', cmin i * w)]) [0..<12])
        = map (\<lambda>i. if i = j then cmin j * w else 0) [0..<12]"
    using j by (auto simp: slot_total_Cons slot_total_Nil pitch_names_inj)
  then have "slot_total (score_table cmaj cmin w) (pitch_names ! j @ '' minor'')
               = sum_list (map (\<lambda>i. if i = j then cmin j * w else 0) [0..<12])"
    by (simp only: score_table_def slot_total_concat)
  also have "\<dots> = cmin j * w"
    using j by (intro sum_list_delta) simp_all
  finally show ?thesis .
qed

lemma labels_score_table:
  "L \<in> fst ` set (score_table cmaj cmin w) \<Longrightarrow>
     \<exists>i<12. L = pitch_names ! i @ '' major'' \<or> L = pitch_names ! i @ '' minor''"
  by (auto simp: score_table_def)

lemma profile_scores_rolled_major:
  assumes k: "k < 12"
  obtains cmaj cmin where
    "\<And>w. profile_scores (Some (np_roll major_profile k)) w = score_table cmaj cmin w"
    "cmaj k = 1" "\<And>i. i < 12 \<Longrightarrow> i \<noteq> k \<Longrightarrow> cmaj i < 1" "\<And>i. i < 12 \<Longrightarrow> cmin i < 1"
    "\<And>i. i < 12 \<Longrightarrow>
       np_corrcoef (np_roll major_profile k) (np_roll major_profile i) = Some (cmaj i)"
proof -
  define cmaj where
    "cmaj i = the (np_corrcoef (np_roll major_profile k) (np_roll major_profile i))" for i
  define cmin where
    "cmin i = the (np_corrcoef (np_roll major_profile k) (np_roll minor_profile i))" for i
  have maj: "np_corrcoef (np_roll major_profile k) (np_roll major_profile i) = Some (cmaj i) \<and>
             (if i = k then cmaj i = 1 else cmaj i < 1)" if "i < 12" for i
    using corr_rolled_major_major [OF k that] by (auto simp: cmaj_def)
  have min: "np_corrcoef (np_roll major_profile k) (np_roll minor_profile i) = Some (cmin i) \<and>
             cmin i < 1" if "i < 12" for i
    using corr_rolled_major_minor [OF k that] by (auto simp: cmin_def)
  have "profile_scores (Some (np_roll major_profile k)) w = score_table cmaj cmin w" for w
    unfolding profile_scores_def score_table_def profile_corr_def
    by (rule arg_cong [where f = concat], rule map_cong) (simp_all add: maj min)
  moreover have "cmaj k = 1"
    using maj [OF k] by simp
  moreover have "cmaj i < 1" if "i < 12" "i \<noteq> k" for i
    using maj [OF that(1)] that(2) by simp
  moreover have "cmin i < 1" if "i < 12" for i
    using min [OF that] by simp
  moreover have "np_corrcoef (np_roll major_profile k) (np_roll major_profile i) = Some (cmaj i)"
    if "i < 12" for i
    using maj [OF that] by simp
  ultimately show thesis
    using that by blast
qed

lemma aggregate_key_rolled_major:
  assumes k: "k < 12"
    and ext: "ext = [] \<or> (\<exists>s>0. ext = [(pitch_names ! k @ '' major'', s)])"
    and harm: "harm = [] \<or> harm = score_table cmaj cmin (6 / 10)"
    and one: "cmaj k = 1"
    and maj: "\<And>i. i < 12 \<Longrightarrow> i \<noteq> k \<Longrightarrow> cmaj i < 1"
    and min: "\<And>i. i < 12 \<Longrightarrow> cmin i < 1"
  shows "aggregate_key
           (score_table cmaj cmin (4 / 10) @ score_table cmaj cmin (4 / 10)
            @ score_table cmaj cmin (2 / 10) @ ext @ harm)
         = (pitch_names ! k @ '' major'', 1)"
proof -
  define ks where "ks = score_table cmaj cmin (4 / 10) @ score_table cmaj cmin (4 / 10)
            @ score_table cmaj cmin (2 / 10) @ ext @ harm"
  define h :: real where "h = (if harm = [] then 0 else 6 / 10)"
  define e where "e = slot_total ext (pitch_names ! k @ '' major'')"
  let ?K = "pitch_names ! k @ '' major''"
  have h: "0 \<le> h"
    by (simp add: h_def)
  have e: "0 \<le> e"
    using ext by (auto simp: e_def slot_total_Nil slot_total_Cons)
  have harm_major: "slot_total harm (pitch_names ! i @ '' major'') = cmaj i * h" if "i < 12" for i
    using harm that by (auto simp: h_def slot_total_Nil slot_total_score_table_major)
  have harm_minor: "slot_total harm (pitch_names ! i @ '' minor'') = cmin i * h" if "i < 12" for i
    using harm that by (auto simp: h_def slot_total_Nil slot_total_score_table_minor)
  have ext_major: "slot_total ext (pitch_names ! i @ '' major'') = 0" if "i < 12" "i \<noteq> k" for i
    using ext that k by (auto simp: slot_total_Nil slot_total_Cons pitch_names_inj)
  have ext_minor: "slot_total ext (pitch_names ! i @ '' minor'') = 0" for i
    using ext by (auto simp: slot_total_Nil slot_total_Cons)
  have total_K: "slot_total ks ?K = (1 + h) + e"
    using k by (simp add: ks_def slot_total_append slot_total_score_table_major harm_major
        one e_def)
  have total_major: "slot_total ks (pitch_names ! i @ '' major'') = (1 + h) * cmaj i"
    if "i < 12" "i \<noteq> k" for i
    using that by (simp add: ks_def slot_total_append slot_total_score_table_major harm_major
        ext_major algebra_simps)
  have total_minor: "slot_total ks (pitch_names ! i @ '' minor'') = (1 + h) * cmin i"
    if "i < 12" for i
    using that by (simp add: ks_def slot_total_append slot_total_score_table_minor harm_minor
        ext_minor algebra_simps)
  have less_major: "slot_total ks (pitch_names ! i @ '' major'') < slot_total ks ?K"
    if "i < 12" "i \<noteq> k" for i
  proof -
    have "(1 + h) * cmaj i < (1 + h) * 1"
      using maj [OF that] h by (intro mult_strict_left_mono) simp_all
    with e show ?thesis
      by (simp add: total_major [OF that] total_K)
  qed
  have less_minor: "slot_total ks (pitch_names ! i @ '' minor'') < slot_total ks ?K"
    if "i < 12" for i
  proof -
    have "(1 + h) * cmin i < (1 + h) * 1"
      using min [OF that] h by (intro mult_strict_left_mono) simp_all
    with e show ?thesis
      by (simp add: total_minor [OF that] total_K)
  qed
  have labels: "\<exists>i<12. L = pitch_names ! i @ '' major'' \<or> L = pitch_names ! i @ '' minor''"
    if "L \<in> fst ` set ks" for L
  proof -
    from that consider "L \<in> fst ` set (score_table cmaj cmin (4 / 10))"
      | "L \<in> fst ` set (score_table cmaj cmin (2 / 10))"
      | "L \<in> fst ` set ext" | "L \<in> fst ` set harm"
      by (auto simp: ks_def)
    then show ?thesis
    proof cases
      case 1
      then show ?thesis by (rule labels_score_table)
    next
      case 2
      then show ?thesis by (rule labels_score_table)
    next
      case 3
      with ext have "L = ?K" by auto
      with k show ?thesis by blast
    next
      case 4
      with harm have "L \<in> fst ` set (score_table cmaj cmin (6 / 10))" by auto
      then show ?thesis by (rule labels_score_table)
    qed
  qed
  have K_label: "?K \<in> fst ` set ks"
  proof -
    have "(?K, cmaj k * (4 / 10)) \<in> set (score_table cmaj cmin (4 / 10))"
      using k by (auto simp: score_table_def)
    then have "(?K, cmaj k * (4 / 10)) \<in> set ks"
      by (simp add: ks_def)
    then show ?thesis
      by (rule image_eqI [rotated]) simp
  qed
  then have ne: "ks \<noteq> []"
    by auto
  from aggregate_key_first_max [OF ne] obtain K pre post where
    res: "aggregate_key ks = (K, py_round (min 1 (max 0 (slot_total ks K))) 2)"
    and K_in: "K \<in> fst ` set ks"
    and max: "\<forall>k\<in>fst ` set ks. slot_total ks k \<le> slot_total ks K"
    and "map fst ks = pre @ K # post"
    and "\<forall>k\<in>set pre. slot_total ks k < slot_total ks K"
    by blast
  from max K_label have ge: "slot_total ks ?K \<le> slot_total ks K"
    by (rule bspec)
  have "K = ?K"
  proof (rule ccontr)
    assume neq: "K \<noteq> ?K"
    from labels [OF K_in] obtain i where i: "i < 12"
      and K: "K = pitch_names ! i @ '' major'' \<or> K = pitch_names ! i @ '' minor''"
      by blast
    from K show False
    proof
      assume Kmaj: "K = pitch_names ! i @ '' major''"
      with neq have "i \<noteq> k" by auto
      from less_major [OF i this] ge Kmaj show False by simp
    next
      assume "K = pitch_names ! i @ '' minor''"
      with less_minor [OF i] ge show False by simp
    qed
  qed
  moreover have "min 1 (max 0 (slot_total ks ?K)) = 1"
    using h e by (simp add: total_K)
  moreover have "py_round 1 2 = 1"
    by (simp add: py_round_def Let_def)
  ultimately show ?thesis
    using res by (simp add: ks_def)
qed

lemma chroma_mean_normalized_rolled:
  assumes "[] \<notin> set c" and "map np_mean c = np_roll major_profile k"
  shows "chroma_mean_normalized c = Some (np_roll major_profile k)" and "shape_ok c"
proof -
  have "sum_list (np_roll major_profile k) = 1"
    by (simp add: np_roll_def sum_list_rotate sum_major_profile)
  with assms show "chroma_mean_normalized c = Some (np_roll major_profile k)"
    by (simp add: chroma_mean_normalized_def Let_def)
  have "length (map np_mean c) = 12"
    by (simp only: assms(2) length_np_roll length_profiles)
  then show "shape_ok c"
    by (simp add: shape_ok_def)
qed

lemma single_frame_chroma:
  "[] \<notin> set (map (\<lambda>x. [x]) v) \<and> map np_mean (map (\<lambda>x. [x]) v) = v"
  by (auto simp: np_mean_def intro: map_idI)

text \<open>
  Claim C8, as the code has it. When the time-mean of each of the three chromagrams, and of
  the harmonic chromagram if the harmonic strategy gets that far, is the major profile
  rotated by \<open>k\<close> semitones, and the external key extractor either contributes nothing
  (it fails or reports a strength of at most 0.1) or names the same key, then the
  detection returns the major key of pitch class \<open>k\<close> with confidence 1.
\<close>

theorem rotated_major_profile_selects_key:
  assumes k: "k < 12"
    and stft: "chroma_stft P y sr = Some c1"
    and cqt: "chroma_cqt P y sr = Some c2"
    and cens: "chroma_cens P y sr = Some c3"
    and chroma: "\<forall>c\<in>{c1, c2, c3}. [] \<notin> set c \<and> map np_mean c = np_roll major_profile k"
    and harmonic: "\<forall>h c. hpss P y = Some h \<and> chroma_cqt P h sr = Some c \<longrightarrow>
                     [] \<notin> set c \<and> map np_mean c = np_roll major_profile k"
    and extractor: "\<forall>key scale strength.
                      key_extractor P y = Some (key, scale, strength) \<and> 1 / 10 < strength \<longrightarrow>
                      key @ '' '' @ scale = pitch_names ! k @ '' major''"
  shows "advanced_key_detection P y sr = (pitch_names ! k @ '' major'', 1) \<and>
         9 / 10 < snd (advanced_key_detection P y sr)"
proof -
  let ?v = "np_roll major_profile k"
  from profile_scores_rolled_major [OF k] obtain cmaj cmin where
    table: "\<And>w. profile_scores (Some ?v) w = score_table cmaj cmin w"
    and one: "cmaj k = 1"
    and maj: "\<And>i. i < 12 \<Longrightarrow> i \<noteq> k \<Longrightarrow> cmaj i < 1"
    and min: "\<And>i. i < 12 \<Longrightarrow> cmin i < 1"
    and "\<And>i. i < 12 \<Longrightarrow> np_corrcoef ?v (np_roll major_profile i) = Some (cmaj i)"
    by blast
  have n: "chroma_mean_normalized c1 = Some ?v" "chroma_mean_normalized c2 = Some ?v"
          "chroma_mean_normalized c3 = Some ?v" "shape_ok c1" "shape_ok c2" "shape_ok c3"
    using chroma chroma_mean_normalized_rolled [of _ k] by simp_all
  have ext: "extractor_scores P y = [] \<or>
             (\<exists>s>0. extractor_scores P y = [(pitch_names ! k @ '' major'', s)])"
  proof (cases "key_extractor P y")
    case None
    then show ?thesis by (simp add: extractor_scores_def)
  next
    case (Some a)
    obtain key scale strength where a: "a = (key, scale, strength)"
      by (cases a)
    show ?thesis
    proof (cases "1 / 10 < strength")
      case True
      with extractor Some a have l: "key @ '' '' @ scale = pitch_names ! k @ '' major''"
        by blast
      have "extractor_scores P y = [(key @ '' '' @ scale, strength * (8 / 10))]"
        using Some a True by (simp add: extractor_scores_def)
      then have "extractor_scores P y = [(pitch_names ! k @ '' major'', strength * (8 / 10))]"
        by (simp only: l)
      moreover have "0 < strength * (8 / 10)"
        using True by simp
      ultimately show ?thesis
        by blast
    next
      case False
      with Some a show ?thesis by (simp add: extractor_scores_def)
    qed
  qed
  have harm: "harmonic_scores P y sr = [] \<or>
              harmonic_scores P y sr = score_table cmaj cmin (6 / 10)"
  proof (cases "hpss P y")
    case None
    then show ?thesis by (simp add: harmonic_scores_def)
  next
    case (Some h)
    show ?thesis
    proof (cases "chroma_cqt P h sr")
      case None
      with Some show ?thesis by (simp add: harmonic_scores_def)
    next
      case inner: (Some c)
      with harmonic Some have "[] \<notin> set c \<and> map np_mean c = ?v"
        by blast
      with chroma_mean_normalized_rolled [of c k]
      have "chroma_mean_normalized c = Some ?v" "shape_ok c"
        by simp_all
      with Some inner show ?thesis
        by (simp add: harmonic_scores_def table)
    qed
  qed
  have "key_candidates P y sr =
          Some (score_table cmaj cmin (4 / 10) @ score_table cmaj cmin (4 / 10)
                @ score_table cmaj cmin (2 / 10)
                @ extractor_scores P y @ harmonic_scores P y sr)"
    by (simp add: key_candidates_def stft cqt cens n chroma_weights_def table)
  then have "advanced_key_detection P y sr = (pitch_names ! k @ '' major'', 1)"
    using aggregate_key_rolled_major [OF k ext harm one maj min]
    by (simp add: advanced_key_detection_def)
  then show ?thesis
    by simp
qed

theorem rotated_major_profile_selects_key_witness:
  "advanced_key_detection (profile_provider 7 (Some (''G'', ''major'', 9 / 10))) [0, 0, 0, 0] 4
     = (''G major'', 1) \<and>
   advanced_key_detection (profile_provider 2 None) [0, 0, 0, 0] 4 = (''D major'', 1)"
proof -
  let ?P = "profile_provider 7 (Some (''G'', ''major'', 9 / 10))"
  let ?Q = "profile_provider 2 None"
  let ?c = "\<lambda>k. map (\<lambda>x. [x]) (np_roll major_profile k)"
  have "advanced_key_detection ?P [0, 0, 0, 0] 4 = (pitch_names ! 7 @ '' major'', 1) \<and>
        9 / 10 < snd (advanced_key_detection ?P [0, 0, 0, 0] 4)"
  proof (rule rotated_major_profile_selects_key [where ?c1.0 = "?c 7" and ?c2.0 = "?c 7"
        and ?c3.0 = "?c 7"])
    show "(7 :: nat) < 12" by simp
    show "chroma_stft ?P [0, 0, 0, 0] 4 = Some (?c 7)"
         "chroma_cqt ?P [0, 0, 0, 0] 4 = Some (?c 7)"
         "chroma_cens ?P [0, 0, 0, 0] 4 = Some (?c 7)"
      by (simp_all add: profile_provider_def)
    show "\<forall>c\<in>{?c 7, ?c 7, ?c 7}. [] \<notin> set c \<and> map np_mean c = np_roll major_profile 7"
      using single_frame_chroma [of "np_roll major_profile 7"] by simp
    show "\<forall>h c. hpss ?P [0, 0, 0, 0] = Some h \<and> chroma_cqt ?P h 4 = Some c \<longrightarrow>
            [] \<notin> set c \<and> map np_mean c = np_roll major_profile 7"
      using single_frame_chroma [of "np_roll major_profile 7"]
      by (auto simp: profile_provider_def)
    show "\<forall>key scale strength.
            key_extractor ?P [0, 0, 0, 0] = Some (key, scale, strength) \<and> 1 / 10 < strength \<longrightarrow>
            key @ '' '' @ scale = pitch_names ! 7 @ '' major''"
      by (simp add: profile_provider_def pitch_names_def)
  qed
  moreover
  have "advanced_key_detection ?Q [0, 0, 0, 0] 4 = (pitch_names ! 2 @ '' major'', 1) \<and>
        9 / 10 < snd (advanced_key_detection ?Q [0, 0, 0, 0] 4)"
  proof (rule rotated_major_profile_selects_key [where ?c1.0 = "?c 2" and ?c2.0 = "?c 2"
        and ?c3.0 = "?c 2"])
    show "(2 :: nat) < 12" by simp
    show "chroma_stft ?Q [0, 0, 0, 0] 4 = Some (?c 2)"
         "chroma_cqt ?Q [0, 0, 0, 0] 4 = Some (?c 2)"
         "chroma_cens ?Q [0, 0, 0, 0] 4 = Some (?c 2)"
      by (simp_all add: profile_provider_def)
    show "\<forall>c\<in>{?c 2, ?c 2, ?c 2}. [] \<notin> set c \<and> map np_mean c = np_roll major_profile 2"
      using single_frame_chroma [of "np_roll major_profile 2"] by simp
    show "\<forall>h c. hpss ?Q [0, 0, 0, 0] = Some h \<and> chroma_cqt ?Q h 4 = Some c \<longrightarrow>
            [] \<notin> set c \<and> map np_mean c = np_roll major_profile 2"
      using single_frame_chroma [of "np_roll major_profile 2"]
      by (auto simp: profile_provider_def)
    show "\<forall>key scale strength.
            key_extractor ?Q [0, 0, 0, 0] = Some (key, scale, strength) \<and> 1 / 10 < strength \<longrightarrow>
            key @ '' '' @ scale = pitch_names ! 2 @ '' major''"
      by (simp add: profile_provider_def)
  qed
  ultimately show ?thesis
    by (simp add: pitch_names_def)
qed

lemma np_corrcoef_equal_variances:
  assumes v: "0 < v" and a: "np_cov a a = v" and b: "np_cov b b = v"
  shows "np_corrcoef a b = Some (max (- 1) (min 1 (np_cov a b / v)))"
proof -
  have "sqrt v * sqrt v = v"
    using v by simp
  then have "np_cov a b / sqrt v / sqrt v = np_cov a b / v"
    by (simp only: divide_divide_eq_left)
  with v show ?thesis
    by (simp add: np_corrcoef_def a b)
qed

lemma corr_major_fifth:
  "np_corrcoef (np_roll major_profile 0) (np_roll major_profile 7) = Some (452597 / 765849)"
proof -
  have c: "np_cov (np_roll major_profile 0) (np_roll major_profile 7) = 452597 / 768417804"
    by (simp add: major_profile_explicit np_roll_drop_take np_cov_def np_mean_def)
  have "np_corrcoef (np_roll major_profile 0) (np_roll major_profile 7) =
          Some (max (- 1) (min 1 (np_cov (np_roll major_profile 0) (np_roll major_profile 7)
                                    / (36469 / 36591324))))"
    by (rule np_corrcoef_equal_variances) (simp_all add: np_cov_roll_self var_major_profile)
  then show ?thesis
    unfolding c by simp
qed

lemma aggregate_key_disagreeing_extractor:
  assumes one: "cmaj 0 = 1"
    and fifth: "cmaj 7 = 452597 / 765849"
    and maj: "\<And>i. i < 12 \<Longrightarrow> i \<noteq> 0 \<Longrightarrow> cmaj i < 1"
    and min: "\<And>i. i < 12 \<Longrightarrow> cmin i < 1"
  shows "aggregate_key
           (score_table cmaj cmin (4 / 10) @ score_table cmaj cmin (4 / 10)
            @ score_table cmaj cmin (2 / 10) @ [(''G major'', 72 / 100)]
            @ score_table cmaj cmin (6 / 10))
         = (''G major'', 1)"
proof -
  define ks where "ks = score_table cmaj cmin (4 / 10) @ score_table cmaj cmin (4 / 10)
            @ score_table cmaj cmin (2 / 10) @ [(''G major'', 72 / 100)]
            @ score_table cmaj cmin (6 / 10)"
  have G: "''G major'' = pitch_names ! 7 @ '' major''"
    by (simp add: pitch_names_def)
  have le1: "cmaj i \<le> 1" if "i < 12" for i
    using one maj [OF that] by (cases "i = 0") simp_all
  have total_G: "slot_total ks ''G major'' = 16 / 10 * (452597 / 765849) + 72 / 100"
    by (simp add: ks_def slot_total_append slot_total_score_table_major slot_total_Cons
        slot_total_Nil fifth G)
  have total_major: "slot_total ks (pitch_names ! i @ '' major'') = 16 / 10 * cmaj i"
    if "i < 12" "i \<noteq> 7" for i
    using that
    by (simp add: ks_def slot_total_append slot_total_score_table_major slot_total_Cons
        slot_total_Nil G pitch_names_inj)
  have total_minor: "slot_total ks (pitch_names ! i @ '' minor'') = 16 / 10 * cmin i"
    if "i < 12" for i
    using that
    by (simp add: ks_def slot_total_append slot_total_score_table_minor slot_total_Cons
        slot_total_Nil)
  have less_major: "slot_total ks (pitch_names ! i @ '' major'') < slot_total ks ''G major''"
    if "i < 12" "i \<noteq> 7" for i
    using le1 [OF that(1)] by (simp add: total_major [OF that] total_G)
  have less_minor: "slot_total ks (pitch_names ! i @ '' minor'') < slot_total ks ''G major''"
    if "i < 12" for i
    using min [OF that] by (simp add: total_minor [OF that] total_G)
  have labels: "\<exists>i<12. L = pitch_names ! i @ '' major'' \<or> L = pitch_names ! i @ '' minor''"
    if "L \<in> fst ` set ks" for L
  proof -
    from that consider "L \<in> fst ` set (score_table cmaj cmin (4 / 10))"
      | "L \<in> fst ` set (score_table cmaj cmin (2 / 10))"
      | "L = ''G major''" | "L \<in> fst ` set (score_table cmaj cmin (6 / 10))"
      by (auto simp: ks_def)
    then show ?thesis
    proof cases
      case 3
      with G show ?thesis by (intro exI [of _ 7]) simp
    qed (rule labels_score_table, assumption)+
  qed
  have G_label: "''G major'' \<in> fst ` set ks"
    by (simp add: ks_def)
  then have ne: "ks \<noteq> []"
    by auto
  from aggregate_key_first_max [OF ne] obtain K pre post where
    res: "aggregate_key ks = (K, py_round (min 1 (max 0 (slot_total ks K))) 2)"
    and K_in: "K \<in> fst ` set ks"
    and max: "\<forall>k\<in>fst ` set ks. slot_total ks k \<le> slot_total ks K"
    and "map fst ks = pre @ K # post"
    and "\<forall>k\<in>set pre. slot_total ks k < slot_total ks K"
    by blast
  from max G_label have ge: "slot_total ks ''G major'' \<le> slot_total ks K"
    by (rule bspec)
  have "K = ''G major''"
  proof (rule ccontr)
    assume neq: "K \<noteq> ''G major''"
    from labels [OF K_in] obtain i where i: "i < 12"
      and K: "K = pitch_names ! i @ '' major'' \<or> K = pitch_names ! i @ '' minor''"
      by blast
    from K show False
    proof
      assume Kmaj: "K = pitch_names ! i @ '' major''"
      with neq G have "i \<noteq> 7" by auto
      from less_major [OF i this] ge Kmaj show False by simp
    next
      assume "K = pitch_names ! i @ '' minor''"
      with less_minor [OF i] ge show False by simp
    qed
  qed
  moreover have "min 1 (max 0 (slot_total ks ''G major'')) = 1"
    by (simp add: total_G)
  moreover have "py_round 1 2 = 1"
    by (simp add: py_round_def Let_def)
  ultimately show ?thesis
    using res by (simp add: ks_def)
qed

text \<open>
  Claim C8 as stated fails when the key extractor disagrees. All four chromagrams are the
  major profile unrotated (C major), the extractor reports G major with strength 0.9: G
  major accumulates \<open>1.6 \<times> 0.591 + 0.72\<close>, more than the 1.6 of C major, and is returned.
\<close>

theorem extractor_overrides_chroma_counterexample:
  "chroma_stft (profile_provider 0 (Some (''G'', ''major'', 9 / 10))) [0, 0, 0, 0] 4
     = Some (map (\<lambda>x. [x]) (np_roll major_profile 0)) \<and>
   map np_mean (map (\<lambda>x. [x]) (np_roll major_profile 0)) = np_roll major_profile 0 \<and>
   advanced_key_detection (profile_provider 0 (Some (''G'', ''major'', 9 / 10))) [0, 0, 0, 0] 4
     = (''G major'', 1) \<and>
   pitch_names ! 0 @ '' major'' = ''C major''"
proof -
  let ?P = "profile_provider 0 (Some (''G'', ''major'', 9 / 10))"
  let ?v = "np_roll major_profile 0"
  let ?c = "map (\<lambda>x. [x]) ?v"
  have k: "(0 :: nat) < 12" by simp
  from profile_scores_rolled_major [OF k] obtain cmaj cmin where
    table: "\<And>w. profile_scores (Some ?v) w = score_table cmaj cmin w"
    and one: "cmaj 0 = 1"
    and maj: "\<And>i. i < 12 \<Longrightarrow> i \<noteq> 0 \<Longrightarrow> cmaj i < 1"
    and min: "\<And>i. i < 12 \<Longrightarrow> cmin i < 1"
    and corr: "\<And>i. i < 12 \<Longrightarrow> np_corrcoef ?v (np_roll major_profile i) = Some (cmaj i)"
    by blast
  have fifth: "cmaj 7 = 452597 / 765849"
    using corr [of 7] corr_major_fifth by simp
  have n: "chroma_mean_normalized ?c = Some ?v" "shape_ok ?c"
    using chroma_mean_normalized_rolled [of ?c 0] single_frame_chroma [of ?v] by simp_all
  have "key_candidates ?P [0, 0, 0, 0] 4 =
          Some (score_table cmaj cmin (4 / 10) @ score_table cmaj cmin (4 / 10)
                @ score_table cmaj cmin (2 / 10) @ [(''G major'', 72 / 100)]
                @ score_table cmaj cmin (6 / 10))"
    by (simp add: key_candidates_def profile_provider_def n chroma_weights_def table
        extractor_scores_def harmonic_scores_def del: map_map)
  then have "advanced_key_detection ?P [0, 0, 0, 0] 4 = (''G major'', 1)"
    using aggregate_key_disagreeing_extractor [OF one fifth maj min]
    by (simp add: advanced_key_detection_def)
  moreover have "chroma_stft ?P [0, 0, 0, 0] 4 = Some ?c"
    by (simp add: profile_provider_def)
  moreover have "map np_mean ?c = ?v"
    using single_frame_chroma [of ?v] by simp
  moreover have "pitch_names ! 0 @ '' major'' = ''C major''"
    by (simp add: pitch_names_def)
  ultimately show ?thesis
    by blast
qed

end
